theory Spec2Isabelle
  imports Complex_Main "HOL-Library.AList" "HOL-Library.Char_ord" "HOL-Library.List_Lexorder"
    "HOL-Library.Monad_Syntax"
begin

section \<open>JavaScript values as the server sees them\<close>

text \<open>
  A JavaScript number is a double. Only its order, its special values and \<open>x + 1\<close> are
  used by the code below, so a number is \<open>NaN\<close>, an infinity or an exact rational.
  The sum \<open>x + 1\<close> is the exact one: the rounding of a double is not represented, and
  no statement below is about a sum that would round.
\<close>

datatype jsnum = NaN | NegInf | Fin rat | PosInf

text \<open>
  The value of \<open>JSON.parse\<close>. An object is the list of its own properties, an array the
  list of its elements. \<open>undefined\<close> is not a JSON value: the result of a property
  access is a \<open>jvalue option\<close>, with \<open>None\<close> for \<open>undefined\<close>.
\<close>

datatype jvalue =
    JNull
  | JBool bool
  | JNum jsnum
  | JStr string
  | JArr "jvalue list"
  | JObj "(string \<times> jvalue) list"

text \<open>
  Built-ins of the JavaScript engine whose definition is not part of the repository:
  \<open>Date.parse\<close> (a finite time value in milliseconds, or \<open>NaN\<close> as \<open>None\<close>), the
  conversion of a string to a number and of a number to a string. They are parameters of
  every function that calls them.
\<close>

record platform =
  Date_parse :: "string \<Rightarrow> int option"
  StringToNumber :: "string \<Rightarrow> jsnum"
  NumberToString :: "jsnum \<Rightarrow> string"

text \<open>
  What the environment supplies while one request is handled: the values of \<open>makeId()\<close>
  and \<open>nowStamp()\<close>, and the writing of an uploaded image to the upload directory
  (\<open>None\<close> when that part of \<open>saveUploadedImage\<close> throws).
\<close>

record env =
  makeId :: string
  nowStamp :: string
  write_image :: "string \<Rightarrow> jvalue \<Rightarrow> string \<Rightarrow> string \<Rightarrow> string option"

subsection \<open>Property access\<close>

definition digit_char :: "nat \<Rightarrow> char" where
  "digit_char d = char_of (48 + d)"

fun index_key :: "nat \<Rightarrow> string" where
  "index_key n = (if n < 10 then [digit_char n] else index_key (n div 10) @ [digit_char (n mod 10)])"

declare index_key.simps [simp del]

text \<open>
  The own enumerable properties of a value, which \<open>Object.keys\<close> lists: the
  properties of an object, the indices of an array or of a string. The list of an object
  has each key once and stands for the order of insertion (an engine lists integer-like
  keys first; the stored objects are compared below as lists built in the same way, so
  that order plays no part).
\<close>

fun entries :: "jvalue \<Rightarrow> (string \<times> jvalue) list" where
  "entries (JObj kv) = kv"
| "entries (JArr xs) = zip (map index_key [0..<length xs]) xs"
| "entries (JStr s) = zip (map index_key [0..<length s]) (map (\<lambda>c. JStr [c]) s)"
| "entries _ = []"

text \<open>
  \<open>v?.k\<close> for the property names the server reads (field names and indices, never
  \<open>length\<close> or an inherited method): \<open>undefined\<close> on \<open>null\<close>, on a number and on
  a boolean.
\<close>

definition getprop :: "jvalue \<Rightarrow> string \<Rightarrow> jvalue option" where
  "getprop v k = map_of (entries v) k"

definition Object_keys :: "jvalue \<Rightarrow> string list" where
  "Object_keys v = map fst (entries v)"

subsection \<open>Coercions\<close>

fun ToBoolean :: "jvalue \<Rightarrow> bool" where
  "ToBoolean JNull = False"
| "ToBoolean (JBool b) = b"
| "ToBoolean (JNum n) = (n \<noteq> NaN \<and> n \<noteq> Fin 0)"
| "ToBoolean (JStr s) = (s \<noteq> [])"
| "ToBoolean (JArr xs) = True"
| "ToBoolean (JObj kv) = True"

text \<open>\<open>a || d\<close> where \<open>a\<close> may be \<open>undefined\<close>.\<close>

definition js_or :: "jvalue option \<Rightarrow> jvalue \<Rightarrow> jvalue" where
  "js_or a d = (case a of None \<Rightarrow> d | Some v \<Rightarrow> if ToBoolean v then v else d)"

text \<open>\<open>a ?? d\<close> where \<open>a\<close> may be \<open>undefined\<close>.\<close>

definition js_nullish :: "jvalue option \<Rightarrow> jvalue \<Rightarrow> jvalue" where
  "js_nullish a d = (case a of None \<Rightarrow> d | Some JNull \<Rightarrow> d | Some v \<Rightarrow> v)"

fun join :: "string \<Rightarrow> string list \<Rightarrow> string" where
  "join sep [] = []"
| "join sep [x] = x"
| "join sep (x # y # ys) = x @ sep @ join sep (y # ys)"

text \<open>
  \<open>String(v)\<close>, with \<open>None\<close> where it throws a TypeError. An array joins its
  elements with a comma, \<open>null\<close> elements as the empty string. An object is converted
  by its \<open>toString\<close> method: the inherited one gives \<open>[object Object]\<close>, but an
  object with an own property \<open>toString\<close> (which in a JSON value is never a function)
  has no method that yields a primitive, and the conversion throws.
\<close>

fun ToString :: "platform \<Rightarrow> jvalue \<Rightarrow> string option" where
  "ToString P JNull = Some ''null''"
| "ToString P (JBool b) = Some (if b then ''true'' else ''false'')"
| "ToString P (JNum n) = Some (NumberToString P n)"
| "ToString P (JStr s) = Some s"
| "ToString P (JArr xs) =
     map_option (join '','') (those (map (\<lambda>x. if x = JNull then Some [] else ToString P x) xs))"
| "ToString P (JObj kv) = (if ''toString'' \<in> set (map fst kv) then None else Some ''[object Object]'')"

text \<open>
  \<open>Number(v)\<close>, with \<open>None\<close> where it throws a TypeError. An array and an object
  convert through their string: \<open>[object Object]\<close> is not a numeric literal.
\<close>

fun ToNumber :: "platform \<Rightarrow> jvalue \<Rightarrow> jsnum option" where
  "ToNumber P JNull = Some (Fin 0)"
| "ToNumber P (JBool b) = Some (if b then Fin 1 else Fin 0)"
| "ToNumber P (JNum n) = Some n"
| "ToNumber P (JStr s) = Some (StringToNumber P s)"
| "ToNumber P (JArr xs) = map_option (StringToNumber P) (ToString P (JArr xs))"
| "ToNumber P (JObj kv) = (if ''toString'' \<in> set (map fst kv) then None else Some NaN)"

subsection \<open>Numbers\<close>

text \<open>\<open>x <= y\<close>: false as soon as one side is \<open>NaN\<close>.\<close>

fun js_le :: "jsnum \<Rightarrow> jsnum \<Rightarrow> bool" where
  "js_le NaN y = False"
| "js_le x NaN = False"
| "js_le NegInf y = True"
| "js_le x PosInf = True"
| "js_le (Fin a) (Fin b) = (a \<le> b)"
| "js_le x y = False"

text \<open>\<open>x < y\<close>\<close>

fun js_lt :: "jsnum \<Rightarrow> jsnum \<Rightarrow> bool" where
  "js_lt NaN y = False"
| "js_lt x NaN = False"
| "js_lt (Fin a) (Fin b) = (a < b)"
| "js_lt NegInf y = (y \<noteq> NegInf)"
| "js_lt x PosInf = (x \<noteq> PosInf)"
| "js_lt x y = False"

text \<open>\<open>Math.min\<close> and \<open>Math.max\<close> of two numbers: \<open>NaN\<close> if one of them is.\<close>

definition Math_min :: "jsnum \<Rightarrow> jsnum \<Rightarrow> jsnum" where
  "Math_min x y = (if x = NaN \<or> y = NaN then NaN else if js_le x y then x else y)"

definition Math_max :: "jsnum \<Rightarrow> jsnum \<Rightarrow> jsnum" where
  "Math_max x y = (if x = NaN \<or> y = NaN then NaN else if js_le x y then y else x)"

text \<open>\<open>x + y\<close> on numbers.\<close>

fun js_add :: "jsnum \<Rightarrow> jsnum \<Rightarrow> jsnum" where
  "js_add NaN y = NaN"
| "js_add x NaN = NaN"
| "js_add (Fin a) (Fin b) = Fin (a + b)"
| "js_add PosInf NegInf = NaN"
| "js_add NegInf PosInf = NaN"
| "js_add PosInf y = PosInf"
| "js_add NegInf y = NegInf"
| "js_add x PosInf = PosInf"
| "js_add x NegInf = NegInf"

subsection \<open>Strings\<close>

text \<open>
  A string is a list of code units, here the 8-bit characters of HOL; the default
  \<open>sort()\<close> of an array of strings orders them by code unit, which is \<open>sort\<close> in the
  lexicographic order of lists over the order of character codes.
\<close>

definition is_ws :: "char \<Rightarrow> bool" where
  "is_ws c = ((of_char c :: nat) \<in> {9, 10, 11, 12, 13, 32, 160})"

definition trim :: "string \<Rightarrow> string" where
  "trim s = rev (dropWhile is_ws (rev (dropWhile is_ws s)))"

definition startsWith :: "string \<Rightarrow> string \<Rightarrow> bool" where
  "startsWith s p = (take (length p) s = p)"

text \<open>
  \<open>Array.from(new Set(arr))\<close>: the elements in the order of their first occurrence.
\<close>

definition Set_add :: "'a \<Rightarrow> 'a list \<Rightarrow> 'a list" where
  "Set_add x s = (if x \<in> set s then s else s @ [x])"

definition new_Set :: "'a list \<Rightarrow> 'a list" where
  "new_Set arr = fold Set_add arr []"

section \<open>Availability\<close>

text \<open>
  The availability the server keeps: the weekly template, entry \<open>dow\<close> of the list for
  the key \<open>String(dow)\<close>, and the blocked slots of each date.
\<close>

record day_conf =
  enabled :: bool
  start :: jsnum
  end_hour :: jsnum

record availability =
  weekly :: "day_conf list"
  blocks :: "(string \<times> string list) list"

text \<open>\<open>DEFAULT_AVAILABILITY.weekly\<close>: Monday to Friday enabled, 8 to 18 on every day.\<close>

definition DEFAULT_day :: "nat \<Rightarrow> jvalue" where
  "DEFAULT_day dow =
     JObj [(''enabled'', JBool (1 \<le> dow \<and> dow \<le> 5)), (''start'', JNum (Fin 8)), (''end'', JNum (Fin 18))]"

definition DEFAULT_weekly :: jvalue where
  "DEFAULT_weekly = JObj (map (\<lambda>dow. (index_key dow, DEFAULT_day dow)) [0..<7])"

definition DEFAULT_AVAILABILITY :: availability where
  "DEFAULT_AVAILABILITY =
     \<lparr>weekly = map (\<lambda>dow. \<lparr>enabled = (1 \<le> dow \<and> dow \<le> 5), start = Fin 8, end_hour = Fin 18\<rparr>) [0..<7],
      blocks = []\<rparr>"

text \<open>\<open>v && typeof v === "object" ? v : d\<close> for a property \<open>v\<close> that may be \<open>undefined\<close>.\<close>

fun typeof_object :: "jvalue \<Rightarrow> bool" where
  "typeof_object JNull = True"
| "typeof_object (JArr xs) = True"
| "typeof_object (JObj kv) = True"
| "typeof_object v = False"

definition object_or :: "jvalue option \<Rightarrow> jvalue \<Rightarrow> jvalue" where
  "object_or a d = (case a of None \<Rightarrow> d | Some v \<Rightarrow> if ToBoolean v \<and> typeof_object v then v else d)"

text \<open>\<open>!!v\<close> for a property \<open>v\<close> that may be \<open>undefined\<close>.\<close>

definition truthy :: "jvalue option \<Rightarrow> bool" where
  "truthy a = (case a of None \<Rightarrow> False | Some v \<Rightarrow> ToBoolean v)"

text \<open>
  One round of the loop over \<open>dow\<close> in \<open>normalizeAvailability\<close>. \<open>w[dow]\<close> and
  \<open>w[String(dow)]\<close> are the same property. \<open>None\<close> when a \<open>Number(...)\<close> throws.
\<close>

definition normalize_day :: "platform \<Rightarrow> jvalue \<Rightarrow> nat \<Rightarrow> day_conf option" where
  "normalize_day P w dow =
     (let conf = js_nullish (getprop w (index_key dow)) (js_nullish (getprop w (index_key dow)) (DEFAULT_day dow))
      in do {
        s \<leftarrow> ToNumber P (js_nullish (getprop conf ''start'') (JNum (Fin 8)));
        e \<leftarrow> ToNumber P (js_nullish (getprop conf ''end'') (JNum (Fin 18)));
        let st = Math_max (Fin 0) (Math_min (Fin 23) s);
        let endRaw = Math_max (Fin 1) (Math_min (Fin 24) e);
        let en = Math_max endRaw (js_add st (Fin 1));
        Some \<lparr>enabled = truthy (getprop conf ''enabled''), start = st, end_hour = en\<rparr>
      })"

text \<open>\<open>Array.isArray(b[k]) ? b[k].map(String) : []\<close>, with \<open>None\<close> when a \<open>String\<close> throws.\<close>

definition map_String :: "platform \<Rightarrow> jvalue \<Rightarrow> string \<Rightarrow> string list option" where
  "map_String P b k = (case getprop b k of Some (JArr xs) \<Rightarrow> those (map (ToString P) xs) | _ \<Rightarrow> Some [])"

text \<open>
  One round of the loop over the keys of \<open>b\<close>. The assignment
  \<open>out.blocks["__proto__"] = uniq\<close> sets the prototype of the object and stores no key.
\<close>

definition normalize_block :: "platform \<Rightarrow> jvalue \<Rightarrow> string \<Rightarrow> (string \<times> string list) list \<Rightarrow> (string \<times> string list) list option" where
  "normalize_block P b k out =
     do {
       arr \<leftarrow> map_String P b k;
       let uniq = sort (filter (\<lambda>s. s \<noteq> []) (new_Set arr));
       Some (if uniq \<noteq> [] \<and> k \<noteq> ''__proto__'' then AList.update k uniq out else out)
     }"

text \<open>The loop over the keys of \<open>b\<close>, which ends at the first round that throws.\<close>

fun normalize_blocks :: "platform \<Rightarrow> jvalue \<Rightarrow> string list \<Rightarrow> (string \<times> string list) list \<Rightarrow> (string \<times> string list) list option" where
  "normalize_blocks P b [] out = Some out"
| "normalize_blocks P b (k # ks) out =
     (case normalize_block P b k out of None \<Rightarrow> None | Some out' \<Rightarrow> normalize_blocks P b ks out')"

definition normalizeAvailability :: "platform \<Rightarrow> jvalue \<Rightarrow> availability option" where
  "normalizeAvailability P input =
     (let w = object_or (getprop input ''weekly'') DEFAULT_weekly;
          b = object_or (getprop input ''blocks'') (JObj [])
      in do {
        wk \<leftarrow> those (map (normalize_day P w) [0..<7]);
        bl \<leftarrow> normalize_blocks P b (Object_keys b) [];
        Some \<lparr>weekly = wk, blocks = bl\<rparr>
      })"

section \<open>Inventory, gallery and contact messages\<close>

record item =
  item_id :: string
  title :: string
  model :: string
  buyPrice :: "jsnum option"
  rentPrice :: "jsnum option"
  item_status :: string
  item_note :: string
  imagePath :: string

record photo =
  photo_id :: string
  photo_imagePath :: string
  caption :: string
  photo_createdISO :: string

record message =
  msg_id :: string
  msg_name :: string
  msg_email :: string
  msg_type :: string
  msg_description :: string
  msg_createdISO :: string

definition DEFAULT_IMAGE_PATH :: string where
  "DEFAULT_IMAGE_PATH = ''/uploads/default.png''"

text \<open>
  \<open>(v === "" || v == null) ? null : Number(v)\<close>: the outer \<open>None\<close> when
  \<open>Number\<close> throws, \<open>Some None\<close> for \<open>null\<close>.
\<close>

definition price :: "platform \<Rightarrow> jvalue option \<Rightarrow> jsnum option option" where
  "price P a = (case a of None \<Rightarrow> Some None | Some JNull \<Rightarrow> Some None
                | Some v \<Rightarrow> if v = JStr [] then Some None else map_option Some (ToNumber P v))"

definition normalizeInventoryItem :: "platform \<Rightarrow> env \<Rightarrow> jvalue \<Rightarrow> item option" where
  "normalizeInventoryItem P E input =
     do {
       v_id \<leftarrow> ToString P (js_or (getprop input ''id'') (JStr (makeId E)));
       v_title \<leftarrow> ToString P (js_or (getprop input ''title'') (JStr []));
       v_model \<leftarrow> ToString P (js_or (getprop input ''model'') (JStr []));
       v_buy \<leftarrow> price P (getprop input ''buyPrice'');
       v_rent \<leftarrow> price P (getprop input ''rentPrice'');
       v_status \<leftarrow> ToString P (js_or (getprop input ''status'') (JStr ''unavailable''));
       v_note \<leftarrow> ToString P (js_or (getprop input ''note'') (JStr []));
       v_path \<leftarrow> ToString P (js_or (getprop input ''imagePath'') (JStr []));
       let p0 = trim v_path;
       let p1 = (if p0 = [] then DEFAULT_IMAGE_PATH else p0);
       let p2 = (if \<not> startsWith p1 ''/uploads/'' then DEFAULT_IMAGE_PATH else p1);
       Some \<lparr>item_id = v_id, title = trim v_title, model = trim v_model, buyPrice = v_buy, rentPrice = v_rent,
             item_status = (if v_status = ''available'' then ''available'' else ''unavailable''),
             item_note = trim v_note, imagePath = p2\<rparr>
     }"

text \<open>
  \<open>saveUploadedImage\<close>: without a data URL the default path; otherwise the data is
  decoded and written to the upload directory, and the path of the new file (or the
  default path if that fails) is returned. Decoding and writing are the environment's
  \<open>write_image\<close>. \<open>None\<close> when \<open>String(dataUrl)\<close> or that part throws.
\<close>

definition saveUploadedImage :: "platform \<Rightarrow> env \<Rightarrow> jvalue option \<Rightarrow> jvalue \<Rightarrow> string \<Rightarrow> string \<Rightarrow> string option" where
  "saveUploadedImage P E dataUrl filenameHint i prefix =
     (case dataUrl of
        None \<Rightarrow> Some DEFAULT_IMAGE_PATH
      | Some v \<Rightarrow> if \<not> ToBoolean v then Some DEFAULT_IMAGE_PATH
                  else do { s \<leftarrow> ToString P v; write_image E s filenameHint i prefix })"

text \<open>\<open>a || b\<close> where both may be \<open>undefined\<close>.\<close>

definition or_undef :: "jvalue option \<Rightarrow> jvalue option \<Rightarrow> jvalue option" where
  "or_undef a b = (case a of None \<Rightarrow> b | Some v \<Rightarrow> if ToBoolean v then Some v else b)"

section \<open>The server\<close>

text \<open>
  An appointment as \<open>normalizeAppt\<close> builds it and as the lists \<open>BOOKED\<close> and
  \<open>PENDING\<close> hold it.
\<close>

record appt =
  appt_id :: string
  startISO :: string
  slots :: jsnum
  name :: string
  phone :: string
  email :: string
  serviceType :: string
  appliance :: string
  appt_notes :: string
  status :: string
  createdISO :: string

text \<open>The variables of the server process.\<close>

record server =
  BOOKED :: "appt list"
  PENDING :: "appt list"
  AVAILABILITY :: availability
  INVENTORY :: "item list"
  GALLERY :: "photo list"
  MESSAGES :: "message list"

record response =
  code :: nat
  body :: jvalue

definition json :: "nat \<Rightarrow> jvalue \<Rightarrow> response" where
  "json st obj = \<lparr>code = st, body = obj\<rparr>"

definition error_body :: "string \<Rightarrow> jvalue" where
  "error_body msg = JObj [(''ok'', JBool False), (''error'', JStr msg)]"

definition ok_body :: "(string \<times> jvalue) list \<Rightarrow> jvalue" where
  "ok_body kv = JObj ((''ok'', JBool True) # kv)"

text \<open>\<open>normalizeAppt(a, status)\<close>, with \<open>None\<close> when one of its conversions throws.\<close>

definition normalizeAppt :: "platform \<Rightarrow> env \<Rightarrow> jvalue \<Rightarrow> string \<Rightarrow> appt option" where
  "normalizeAppt P E a st =
     do {
       v_start \<leftarrow> ToString P (js_or (getprop a ''startISO'') (JStr []));
       v_slots \<leftarrow> ToNumber P (js_or (getprop a ''slots'') (JNum (Fin 1)));
       v_id \<leftarrow> ToString P (js_or (getprop a ''id'') (JStr (makeId E)));
       v_name \<leftarrow> ToString P (js_or (getprop a ''name'') (JStr []));
       v_phone \<leftarrow> ToString P (js_or (getprop a ''phone'') (JStr []));
       v_email \<leftarrow> ToString P (js_or (getprop a ''email'') (JStr []));
       v_service \<leftarrow> ToString P (js_or (getprop a ''serviceType'') (JStr []));
       v_appliance \<leftarrow> ToString P (js_or (getprop a ''appliance'') (JStr []));
       v_notes \<leftarrow> ToString P (js_or (getprop a ''notes'') (JStr []));
       v_created \<leftarrow> ToString P (js_or (getprop a ''createdISO'') (JStr (nowStamp E)));
       Some \<lparr>appt_id = v_id, startISO = v_start, slots = v_slots, name = v_name, phone = v_phone,
             email = v_email, serviceType = v_service, appliance = v_appliance, appt_notes = v_notes,
             status = st, createdISO = v_created\<rparr>
     }"

text \<open>
  \<open>hasStart(list, startISO)\<close>. The argument and the \<open>startISO\<close> of every entry are
  strings, on which \<open>String(s || "")\<close> is the identity.
\<close>

definition hasStart :: "platform \<Rightarrow> appt list \<Rightarrow> string \<Rightarrow> bool" where
  "hasStart P list s =
     (case Date_parse P s of
        None \<Rightarrow> False
      | Some target \<Rightarrow>
          list_ex (\<lambda>x. case Date_parse P (startISO x) of None \<Rightarrow> False | Some t \<Rightarrow> t = target) list)"

fun findIndex :: "('a \<Rightarrow> bool) \<Rightarrow> 'a list \<Rightarrow> nat option" where
  "findIndex p [] = None"
| "findIndex p (x # xs) = (if p x then Some 0 else map_option Suc (findIndex p xs))"

text \<open>\<open>xs.splice(i, 1)\<close>\<close>

definition splice1 :: "nat \<Rightarrow> 'a list \<Rightarrow> 'a list" where
  "splice1 i xs = take i xs @ drop (Suc i) xs"

definition count_num :: "'a list \<Rightarrow> jvalue" where
  "count_num xs = JNum (Fin (of_nat (length xs)))"

text \<open>\<open>String(payload?.id || "")\<close>\<close>

definition payload_id :: "platform \<Rightarrow> jvalue \<Rightarrow> string option" where
  "payload_id P payload = ToString P (js_or (getprop payload ''id'') (JStr []))"

subsection \<open>The schedule endpoints\<close>

text \<open>
  A handler gives the response and the new state. It gives \<open>None\<close> when it throws:
  nothing catches the TypeError (\<open>readBodyJson\<close> calls the handler outside its
  \<open>try\<close>, and the promise of an \<open>async\<close> handler is handled by nothing), so the
  request gets no answer and the process ends. Every conversion of a handler comes before
  its first assignment, so the state at the throw, in memory and as persisted, is the state
  before the request.
\<close>

text \<open>
  POST /api/schedule/request. Before it answers 200 the handler awaits
  \<open>sendScheduleRequestEmail\<close>, which catches the errors of the mailer and always
  returns; the e-mail is no part of the state.
\<close>

definition schedule_request :: "platform \<Rightarrow> env \<Rightarrow> jvalue \<Rightarrow> server \<Rightarrow> (response \<times> server) option" where
  "schedule_request P E payload S =
     (case normalizeAppt P E payload ''pending'' of
        None \<Rightarrow> None
      | Some a \<Rightarrow> Some
         (if startISO a = [] then (json 400 (error_body ''Missing startISO''), S)
          else if hasStart P (BOOKED S) (startISO a) then (json 409 (error_body ''Slot already booked''), S)
          else if hasStart P (PENDING S) (startISO a) then (json 409 (error_body ''Slot already pending''), S)
          else
            (let S' = S\<lparr>PENDING := PENDING S @ [a]\<rparr> in
             (json 200 (ok_body [(''id'', JStr (appt_id a)), (''pendingCount'', count_num (PENDING S'))]), S'))))"

text \<open>POST /api/schedule/book\<close>

definition schedule_book :: "platform \<Rightarrow> env \<Rightarrow> jvalue \<Rightarrow> server \<Rightarrow> (response \<times> server) option" where
  "schedule_book P E payload S =
     (case normalizeAppt P E payload ''accepted'' of
        None \<Rightarrow> None
      | Some a \<Rightarrow> Some
         (if startISO a = [] then (json 400 (error_body ''Missing startISO''), S)
          else if hasStart P (BOOKED S) (startISO a) then (json 409 (error_body ''Slot already booked''), S)
          else
            (let S' = S\<lparr>PENDING := filter (\<lambda>x. startISO x \<noteq> startISO a) (PENDING S),
                         BOOKED := BOOKED S @ [a]\<rparr> in
             (json 200 (ok_body [(''id'', JStr (appt_id a)), (''bookedCount'', count_num (BOOKED S'))]), S'))))"

text \<open>POST /api/schedule/accept\<close>

definition schedule_accept :: "platform \<Rightarrow> jvalue \<Rightarrow> server \<Rightarrow> (response \<times> server) option" where
  "schedule_accept P payload S =
     (case payload_id P payload of
        None \<Rightarrow> None
      | Some i \<Rightarrow> Some
         (if i = [] then (json 400 (error_body ''Missing id''), S)
          else case findIndex (\<lambda>x. appt_id x = i) (PENDING S) of
            None \<Rightarrow> (json 404 (error_body ''Pending id not found''), S)
          | Some idx \<Rightarrow>
              (let reqAppt = PENDING S ! idx in
               if hasStart P (BOOKED S) (startISO reqAppt)
               then (json 409 (error_body ''Slot already booked''), S\<lparr>PENDING := splice1 idx (PENDING S)\<rparr>)
               else
                 (let a = reqAppt\<lparr>status := ''accepted''\<rparr> in
                  (json 200 (ok_body [(''id'', JStr (appt_id a))]),
                   S\<lparr>PENDING := splice1 idx (PENDING S), BOOKED := BOOKED S @ [a]\<rparr>)))))"

text \<open>POST /api/schedule/reject\<close>

definition schedule_reject :: "platform \<Rightarrow> jvalue \<Rightarrow> server \<Rightarrow> (response \<times> server) option" where
  "schedule_reject P payload S =
     (case payload_id P payload of
        None \<Rightarrow> None
      | Some i \<Rightarrow> Some
         (if i = [] then (json 400 (error_body ''Missing id''), S)
          else
            (let before = length (PENDING S);
                 S' = S\<lparr>PENDING := filter (\<lambda>x. appt_id x \<noteq> i) (PENDING S)\<rparr> in
             if length (PENDING S') = before then (json 404 (error_body ''Pending id not found''), S')
             else (json 200 (ok_body []), S'))))"

text \<open>POST /api/schedule/cancel\<close>

definition schedule_cancel :: "platform \<Rightarrow> jvalue \<Rightarrow> server \<Rightarrow> (response \<times> server) option" where
  "schedule_cancel P payload S =
     (case payload_id P payload of
        None \<Rightarrow> None
      | Some i \<Rightarrow> Some
         (if i = [] then (json 400 (error_body ''Missing id''), S)
          else
            (let before = length (BOOKED S);
                 S' = S\<lparr>BOOKED := filter (\<lambda>x. appt_id x \<noteq> i) (BOOKED S)\<rparr> in
             if length (BOOKED S') = before then (json 404 (error_body ''Booked id not found''), S')
             else (json 200 (ok_body []), S'))))"

subsection \<open>Availability, inventory, gallery and contact endpoints\<close>

text \<open>POST /api/availability/set\<close>

definition availability_set :: "platform \<Rightarrow> jvalue \<Rightarrow> server \<Rightarrow> (response \<times> server) option" where
  "availability_set P payload S =
     (case normalizeAvailability P (js_nullish (getprop payload ''availability'') payload) of
        None \<Rightarrow> None
      | Some next \<Rightarrow> Some (json 200 (ok_body []), S\<lparr>AVAILABILITY := next\<rparr>))"

definition price_json :: "jsnum option \<Rightarrow> jvalue" where
  "price_json p = (case p of None \<Rightarrow> JNull | Some n \<Rightarrow> if n = NaN \<or> n = PosInf \<or> n = NegInf then JNull else JNum n)"

definition item_json :: "item \<Rightarrow> jvalue" where
  "item_json x =
     JObj [(''id'', JStr (item_id x)), (''title'', JStr (title x)), (''model'', JStr (model x)),
           (''buyPrice'', price_json (buyPrice x)), (''rentPrice'', price_json (rentPrice x)),
           (''status'', JStr (item_status x)), (''note'', JStr (item_note x)),
           (''imagePath'', JStr (imagePath x))]"

definition photo_json :: "photo \<Rightarrow> jvalue" where
  "photo_json x =
     JObj [(''id'', JStr (photo_id x)), (''imagePath'', JStr (photo_imagePath x)),
           (''caption'', JStr (caption x)), (''createdISO'', JStr (photo_createdISO x))]"

text \<open>POST /api/inventory/upsert\<close>

definition inventory_upsert :: "platform \<Rightarrow> env \<Rightarrow> jvalue \<Rightarrow> server \<Rightarrow> (response \<times> server) option" where
  "inventory_upsert P E payload S =
     (let rawItem = js_nullish (getprop payload ''item'') payload;
          imageDataUrl = or_undef (getprop payload ''imageDataUrl'')
                           (or_undef (getprop payload ''image'') (getprop payload ''imageBase64''))
      in do {
        item0 \<leftarrow> normalizeInventoryItem P E rawItem;
        it \<leftarrow> (if truthy imageDataUrl
              then map_option (\<lambda>path. item0\<lparr>imagePath := path\<rparr>)
                     (saveUploadedImage P E imageDataUrl
                        (js_or (or_undef (getprop payload ''imageName'') (getprop rawItem ''imageName'')) (JStr ''upload''))
                        (item_id item0) ''inv'')
              else Some (if imagePath item0 = [] then item0\<lparr>imagePath := DEFAULT_IMAGE_PATH\<rparr> else item0));
        let inv = (case findIndex (\<lambda>x. item_id x = item_id it) (INVENTORY S) of
                     Some idx \<Rightarrow> (INVENTORY S)[idx := it]
                   | None \<Rightarrow> INVENTORY S @ [it]);
        Some (json 200 (ok_body [(''item'', item_json it)]), S\<lparr>INVENTORY := inv\<rparr>)
      })"

text \<open>POST /api/inventory/delete\<close>

definition inventory_delete :: "platform \<Rightarrow> jvalue \<Rightarrow> server \<Rightarrow> (response \<times> server) option" where
  "inventory_delete P payload S =
     (case payload_id P payload of
        None \<Rightarrow> None
      | Some i \<Rightarrow> Some
         (if i = [] then (json 400 (error_body ''Missing id''), S)
          else case findIndex (\<lambda>x. item_id x = i) (INVENTORY S) of
            None \<Rightarrow> (json 404 (error_body ''Not found''), S)
          | Some idx \<Rightarrow> (json 200 (ok_body []), S\<lparr>INVENTORY := splice1 idx (INVENTORY S)\<rparr>)))"

text \<open>POST /api/gallery/add\<close>

definition gallery_add :: "platform \<Rightarrow> env \<Rightarrow> jvalue \<Rightarrow> server \<Rightarrow> (response \<times> server) option" where
  "gallery_add P E payload S =
     do {
       v_caption \<leftarrow> ToString P (js_or (getprop payload ''caption'') (JStr []));
       let cap = trim v_caption;
       let imageDataUrl = or_undef (getprop payload ''imageDataUrl'')
                            (or_undef (getprop payload ''image'') (getprop payload ''imageBase64''));
       if \<not> truthy imageDataUrl then Some (json 400 (error_body ''Missing imageDataUrl''), S)
       else do {
         let i = makeId E;
         path \<leftarrow> saveUploadedImage P E imageDataUrl (js_or (getprop payload ''imageName'') (JStr ''gallery'')) i ''gal'';
         let x = \<lparr>photo_id = i, photo_imagePath = path, caption = cap, photo_createdISO = nowStamp E\<rparr>;
         Some (json 200 (ok_body [(''photo'', photo_json x)]), S\<lparr>GALLERY := x # GALLERY S\<rparr>)
       }
     }"

text \<open>POST /api/gallery/delete\<close>

definition gallery_delete :: "platform \<Rightarrow> jvalue \<Rightarrow> server \<Rightarrow> (response \<times> server) option" where
  "gallery_delete P payload S =
     (case payload_id P payload of
        None \<Rightarrow> None
      | Some i \<Rightarrow> Some
         (if i = [] then (json 400 (error_body ''Missing id''), S)
          else case findIndex (\<lambda>x. photo_id x = i) (GALLERY S) of
            None \<Rightarrow> (json 404 (error_body ''Not found''), S)
          | Some idx \<Rightarrow> (json 200 (ok_body []), S\<lparr>GALLERY := splice1 idx (GALLERY S)\<rparr>)))"

text \<open>POST /api/contact\<close>

definition contact :: "platform \<Rightarrow> env \<Rightarrow> jvalue \<Rightarrow> server \<Rightarrow> (response \<times> server) option" where
  "contact P E payload S =
     do {
       v_name \<leftarrow> ToString P (js_or (getprop payload ''name'') (JStr []));
       v_email \<leftarrow> ToString P (js_or (getprop payload ''email'') (JStr []));
       v_type \<leftarrow> ToString P (js_or (getprop payload ''type'') (JStr []));
       v_description \<leftarrow> ToString P (js_or (getprop payload ''description'') (JStr []));
       let msg = \<lparr>msg_id = makeId E, msg_name = trim v_name, msg_email = trim v_email, msg_type = trim v_type,
                  msg_description = trim v_description, msg_createdISO = nowStamp E\<rparr>;
       Some (json 200 (ok_body []), S\<lparr>MESSAGES := msg # MESSAGES S\<rparr>)
     }"

subsection \<open>Routing of POST requests\<close>

text \<open>
  A POST request as the server reads it: the URL, the headers, the length of the body
  text, and the payload that \<open>readBodyJson\<close> makes of the body (its JSON value, the
  empty object for an empty body, an object describing the error for a body that does not
  parse). No route reads the headers.
\<close>

record request =
  req_url :: string
  req_headers :: "(string \<times> string) list"
  req_length :: nat
  req_payload :: jvalue

definition MAX_BODY :: nat where
  "MAX_BODY = 15 * 1024 * 1024"

text \<open>
  \<open>readBodyJson(req, res, cb)\<close>: a body longer than \<open>MAX\<close> (here \<open>MAX_BODY\<close>) is answered 413 and the
  handler is not called.
\<close>

definition readBodyJson :: "request \<Rightarrow> (jvalue \<Rightarrow> server \<Rightarrow> (response \<times> server) option) \<Rightarrow> server \<Rightarrow> (response \<times> server) option" where
  "readBodyJson r cb S =
     (if MAX_BODY < req_length r
      then Some (json 413 (error_body ''Payload too large. Please use a smaller image (try exporting under ~5MB).''), S)
      else cb (req_payload r) S)"

definition not_found :: response where
  "not_found = \<lparr>code = 404, body = JStr ''not found''\<rparr>"

definition post :: "platform \<Rightarrow> env \<Rightarrow> request \<Rightarrow> server \<Rightarrow> (response \<times> server) option" where
  "post P E r S =
     (if req_url r = ''/api/availability/set'' then readBodyJson r (availability_set P) S
      else if req_url r = ''/api/inventory/upsert'' then readBodyJson r (inventory_upsert P E) S
      else if req_url r = ''/api/inventory/delete'' then readBodyJson r (inventory_delete P) S
      else if req_url r = ''/api/gallery/add'' then readBodyJson r (gallery_add P E) S
      else if req_url r = ''/api/gallery/delete'' then readBodyJson r (gallery_delete P) S
      else if req_url r = ''/api/contact'' then readBodyJson r (contact P E) S
      else if req_url r = ''/api/schedule/request'' then readBodyJson r (schedule_request P E) S
      else if req_url r = ''/api/schedule/book'' then readBodyJson r (schedule_book P E) S
      else if req_url r = ''/api/schedule/accept'' then readBodyJson r (schedule_accept P) S
      else if req_url r = ''/api/schedule/reject'' then readBodyJson r (schedule_reject P) S
      else if req_url r = ''/api/schedule/cancel'' then readBodyJson r (schedule_cancel P) S
      else Some (not_found, S))"

text \<open>
  A run of the server: each request with the environment it is handled in. A request whose
  handler throws gets no answer and leaves the state as it was. Where the process ends with
  it, the requests after it count for nothing, and the state reached is that of the run
  without them; the run below goes on to the next request, which covers that case and the
  case of an \<open>async\<close> handler whose rejected promise is only reported.
\<close>

fun run :: "platform \<Rightarrow> (env \<times> request) list \<Rightarrow> server \<Rightarrow> server" where
  "run P [] S = S"
| "run P ((E, r) # rs) S = (case post P E r S of None \<Rightarrow> run P rs S | Some (res, S') \<Rightarrow> run P rs S')"

section \<open>The client's block operation\<close>

text \<open>
  \<open>JSON.stringify\<close> of a number: \<open>NaN\<close> and the infinities become \<open>null\<close>.
\<close>

definition num_json :: "jsnum \<Rightarrow> jvalue" where
  "num_json n = (if n = NaN \<or> n = PosInf \<or> n = NegInf then JNull else JNum n)"

definition day_json :: "day_conf \<Rightarrow> jvalue" where
  "day_json d = JObj [(''enabled'', JBool (enabled d)), (''start'', num_json (start d)), (''end'', num_json (end_hour d))]"

definition weekly_json :: "day_conf list \<Rightarrow> jvalue" where
  "weekly_json ds = JObj (map (\<lambda>dow. (index_key dow, day_json (ds ! dow))) [0..<length ds])"

definition blocks_json :: "(string \<times> string list) list \<Rightarrow> jvalue" where
  "blocks_json bs = JObj (map (\<lambda>(k, v). (k, JArr (map JStr v))) bs)"

text \<open>
  The availability as the client holds it in \<open>serverAvailability\<close>: the weekly template
  as the JSON it received, and the blocks, an object of arrays of strings.
\<close>

record serverAvailability =
  sa_weekly :: jvalue
  sa_blocks :: "(string \<times> string list) list"

text \<open>
  GET /api/availability followed by \<open>loadServerAvailability\<close>: the server's availability
  after its transport as JSON, which carries the strings of the blocks unchanged.
\<close>

definition loadServerAvailability :: "server \<Rightarrow> serverAvailability" where
  "loadServerAvailability S =
     \<lparr>sa_weekly = weekly_json (weekly (AVAILABILITY S)), sa_blocks = blocks (AVAILABILITY S)\<rparr>"

text \<open>
  \<open>blockSlotServer\<close> of the client, for a slot whose date is \<open>dateISO\<close> and whose time
  of day is \<open>t\<close>, while the server is online: the payload it posts to
  /api/availability/set.
\<close>

definition blockSlotServer :: "serverAvailability \<Rightarrow> string \<Rightarrow> string \<Rightarrow> bool \<Rightarrow> jvalue" where
  "blockSlotServer sa dateISO t shouldBlock =
     (let arr = (case map_of (sa_blocks sa) dateISO of Some xs \<Rightarrow> xs | None \<Rightarrow> []);
          has = (t \<in> set arr);
          b1 = (if shouldBlock \<and> \<not> has then AList.update dateISO (sort (arr @ [t])) (sa_blocks sa)
                else sa_blocks sa);
          b2 = (if \<not> shouldBlock \<and> has
                then (let filtered = filter (\<lambda>x. x \<noteq> t) arr in
                      if filtered \<noteq> [] then AList.update dateISO filtered b1 else AList.delete dateISO b1)
                else b1)
      in JObj [(''availability'', JObj [(''weekly'', sa_weekly sa), (''blocks'', blocks_json b2)])])"

text \<open>
  Blocking a slot: the client's request and the state in which the server's handler leaves
  the server (the handler answers every such request, \<open>block_slot_answered\<close> below).
\<close>

definition block_slot :: "platform \<Rightarrow> string \<Rightarrow> string \<Rightarrow> server \<Rightarrow> server" where
  "block_slot P dateISO t S =
     (case availability_set P (blockSlotServer (loadServerAvailability S) dateISO t True) S of
        None \<Rightarrow> S
      | Some (res, S') \<Rightarrow> S')"



section \<open>What the claims speak of\<close>

text \<open>
  Two \<open>startISO\<close> strings name the same start time when \<open>Date.parse\<close> gives the same
  finite time value for both.
\<close>

definition same_start :: "platform \<Rightarrow> string \<Rightarrow> string \<Rightarrow> bool" where
  "same_start P s t = (case Date_parse P s of None \<Rightarrow> False | Some a \<Rightarrow> Date_parse P t = Some a)"

text \<open>A list is double-booked when two of its entries have the same start time.\<close>

fun double_booked :: "platform \<Rightarrow> appt list \<Rightarrow> bool" where
  "double_booked P [] = False"
| "double_booked P (x # xs) = (list_ex (\<lambda>y. same_start P (startISO x) (startISO y)) xs \<or> double_booked P xs)"

text \<open>The format HH:MM: two digits, a colon, two digits.\<close>

definition is_digit :: "char \<Rightarrow> bool" where
  "is_digit c = (CHR ''0'' \<le> c \<and> c \<le> CHR ''9'')"

fun is_HHMM :: "string \<Rightarrow> bool" where
  "is_HHMM [a, b, c, d, e] = (is_digit a \<and> is_digit b \<and> c = CHR '':'' \<and> is_digit d \<and> is_digit e)"
| "is_HHMM s = False"

text \<open>\<open>0 <= start <= 23\<close>, \<open>1 <= end <= 24\<close> and \<open>start < end\<close>.\<close>

definition well_formed_day :: "day_conf \<Rightarrow> bool" where
  "well_formed_day d =
     (js_le (Fin 0) (start d) \<and> js_le (start d) (Fin 23) \<and>
      js_le (Fin 1) (end_hour d) \<and> js_le (end_hour d) (Fin 24) \<and> js_lt (start d) (end_hour d))"



section \<open>Notions for the claims about availability\<close>

text \<open>What \<open>normalizeAvailability\<close> makes of an array of strings.\<close>

definition normal_list :: "string list \<Rightarrow> string list" where
  "normal_list arr = sort (filter (\<lambda>s. s \<noteq> []) (new_Set arr))"

text \<open>
  The blocks that the payload of /api/availability/set submits, and the array it submits
  for a key, each element as a string (\<open>None\<close> when an element cannot be converted).
\<close>

definition submitted_blocks :: "jvalue \<Rightarrow> jvalue" where
  "submitted_blocks payload =
     object_or (getprop (js_nullish (getprop payload ''availability'') payload) ''blocks'') (JObj [])"

definition submitted_list :: "platform \<Rightarrow> jvalue \<Rightarrow> string \<Rightarrow> string list option" where
  "submitted_list P payload k = map_String P (submitted_blocks payload) k"

text \<open>
  One round of the loop over the keys of the blocks, with the normalised list of each key
  given by \<open>g\<close>.
\<close>

definition store_list :: "(string \<Rightarrow> string list) \<Rightarrow> string \<Rightarrow> (string \<times> string list) list \<Rightarrow> (string \<times> string list) list" where
  "store_list g k out = (if g k \<noteq> [] \<and> k \<noteq> ''__proto__'' then AList.update k (g k) out else out)"

text \<open>
  Blocks as the server stores them: every key once, none of them \<open>__proto__\<close>, every
  list normal and not empty.
\<close>

definition normal_blocks :: "(string \<times> string list) list \<Rightarrow> bool" where
  "normal_blocks bs =
     (distinct (map fst bs) \<and> (\<forall>(k, v) \<in> set bs. k \<noteq> ''__proto__'' \<and> v \<noteq> [] \<and> normal_list v = v))"

text \<open>
  The list of a key in the client's blocks (empty without the key), the blocks that
  \<open>blockSlotServer\<close> posts when it is asked to block \<open>t\<close> on \<open>d\<close>, and what the
  server stores for posted blocks.
\<close>

definition entry_list :: "(string \<times> string list) list \<Rightarrow> string \<Rightarrow> string list" where
  "entry_list bs k = (case map_of bs k of Some xs \<Rightarrow> xs | None \<Rightarrow> [])"

definition blocks_posted :: "(string \<times> string list) list \<Rightarrow> string \<Rightarrow> string \<Rightarrow> (string \<times> string list) list" where
  "blocks_posted bs d t =
     (if t \<in> set (entry_list bs d) then bs else AList.update d (sort (entry_list bs d @ [t])) bs)"

definition normalized_blocks :: "(string \<times> string list) list \<Rightarrow> (string \<times> string list) list" where
  "normalized_blocks bs = fold (store_list (\<lambda>k. normal_list (entry_list bs k))) (map fst bs) []"

section \<open>Values for the examples\<close>

text \<open>
  A platform for the examples. Its tables agree with the JavaScript engine on the strings
  and numbers that the examples use: two spellings of 2024-01-01 10:00 UTC, one of 11:00
  UTC, and strings that are neither dates nor numbers.
\<close>

definition sample_Date_parse :: "string \<Rightarrow> int option" where
  "sample_Date_parse s =
     (if s = ''2024-01-01T10:00:00Z'' \<or> s = ''2024-01-01T10:00:00.000Z'' then Some 1704103200000
      else if s = ''2024-01-01T11:00:00Z'' then Some 1704106800000
      else None)"

definition sample_StringToNumber :: "string \<Rightarrow> jsnum" where
  "sample_StringToNumber s = (if s = [] then Fin 0 else if s = ''8'' then Fin 8 else NaN)"

definition sample_NumberToString :: "jsnum \<Rightarrow> string" where
  "sample_NumberToString n = (if n = Fin 8 then ''8'' else if n = Fin 0 then ''0'' else ''NaN'')"

definition sample_platform :: platform where
  "sample_platform =
     \<lparr>Date_parse = sample_Date_parse, StringToNumber = sample_StringToNumber,
      NumberToString = sample_NumberToString\<rparr>"

definition sample_env :: "string \<Rightarrow> env" where
  "sample_env i =
     \<lparr>makeId = i, nowStamp = ''2023-12-31T09:00:00.000Z'',
      write_image = (\<lambda>d h i p. Some (''/uploads/'' @ p @ ''_'' @ i @ ''_0.png''))\<rparr>"

definition empty_server :: server where
  "empty_server =
     \<lparr>BOOKED = [], PENDING = [], AVAILABILITY = DEFAULT_AVAILABILITY, INVENTORY = [], GALLERY = [], MESSAGES = []\<rparr>"

definition sample_appt :: "string \<Rightarrow> string \<Rightarrow> appt" where
  "sample_appt i s =
     \<lparr>appt_id = i, startISO = s, slots = Fin 2, name = ''Ada'', phone = [], email = [], serviceType = [],
      appliance = [], appt_notes = [], status = ''pending'', createdISO = ''2023-12-31T09:00:00.000Z''\<rparr>"

text \<open>A request with a short body and no headers.\<close>

definition sample_post :: "string \<Rightarrow> jvalue \<Rightarrow> request" where
  "sample_post u p = \<lparr>req_url = u, req_headers = [], req_length = 100, req_payload = p\<rparr>"

definition id_payload :: "string \<Rightarrow> jvalue" where
  "id_payload i = JObj [(''id'', JStr i)]"

definition appt_payload :: "string \<Rightarrow> string \<Rightarrow> jvalue" where
  "appt_payload i s = JObj [(''id'', JStr i), (''startISO'', JStr s)]"

text \<open>
  A customer requests 10:00; the admin then books the same instant under another spelling,
  which leaves the request in the pending list.
\<close>

definition sample_clash :: server where
  "sample_clash =
     run sample_platform
       [(sample_env ''p1'', sample_post ''/api/schedule/request'' (appt_payload ''p1'' ''2024-01-01T10:00:00Z'')),
        (sample_env ''b1'', sample_post ''/api/schedule/book'' (appt_payload ''b1'' ''2024-01-01T10:00:00.000Z''))]
       empty_server"

text \<open>Two customers send requests under one id, for 10:00 and for 11:00.\<close>

definition sample_twins :: server where
  "sample_twins =
     run sample_platform
       [(sample_env ''n1'', sample_post ''/api/schedule/request'' (appt_payload ''x'' ''2024-01-01T10:00:00Z'')),
        (sample_env ''n2'', sample_post ''/api/schedule/request'' (appt_payload ''x'' ''2024-01-01T11:00:00Z''))]
       empty_server"

text \<open>A request whose id is the empty array, which \<open>String\<close> turns into the empty string.\<close>

definition sample_noid :: server where
  "sample_noid =
     run sample_platform
       [(sample_env ''n1'', sample_post ''/api/schedule/request''
           (JObj [(''id'', JArr []), (''startISO'', JStr ''2024-01-01T10:00:00Z'')]))]
       empty_server"

text \<open>Two bookings, and one request, for a start that \<open>Date.parse\<close> rejects.\<close>

definition sample_soon_booked :: server where
  "sample_soon_booked =
     run sample_platform
       [(sample_env ''b1'', sample_post ''/api/schedule/book'' (appt_payload ''b1'' ''soon'')),
        (sample_env ''b2'', sample_post ''/api/schedule/book'' (appt_payload ''b2'' ''soon''))]
       empty_server"

definition sample_soon_pending :: server where
  "sample_soon_pending =
     run sample_platform
       [(sample_env ''n1'', sample_post ''/api/schedule/request'' (appt_payload ''n1'' ''soon''))]
       empty_server"

text \<open>
  A value that \<open>String\<close> and \<open>Number\<close> cannot convert, and two requests that carry
  it as the name.
\<close>

definition unconvertible :: jvalue where
  "unconvertible = JObj [(''toString'', JNum (Fin 1))]"

definition sample_bad_name :: jvalue where
  "sample_bad_name = JObj [(''startISO'', JStr ''soon''), (''name'', unconvertible)]"

definition sample_bad_conflict :: jvalue where
  "sample_bad_conflict = JObj [(''startISO'', JStr ''2024-01-01T10:00:00.000Z''), (''name'', unconvertible)]"

section \<open>Lemmas about the schedule\<close>

lemma same_start_sym: "same_start P s t = same_start P t s"
  by (auto simp: same_start_def split: option.splits)

lemma hasStart_iff: "hasStart P xs s \<longleftrightarrow> (\<exists>x\<in>set xs. same_start P s (startISO x))"
  by (auto simp: hasStart_def same_start_def list_ex_iff split: option.splits)

lemma findIndex_None: "findIndex p xs = None \<longleftrightarrow> (\<forall>x\<in>set xs. \<not> p x)"
  by (induction xs) auto

lemma findIndex_Some:
  "findIndex p xs = Some i \<Longrightarrow> i < length xs \<and> p (xs ! i) \<and> (\<forall>j<i. \<not> p (xs ! j))"
proof (induction xs arbitrary: i)
  case Nil
  then show ?case by simp
next
  case (Cons x xs)
  show ?case
  proof (cases "p x")
    case True
    with Cons.prems show ?thesis by simp
  next
    case False
    with Cons.prems obtain k where k: "findIndex p xs = Some k" "i = Suc k" by auto
    from Cons.IH[OF k(1)] False k(2) show ?thesis
      by (auto simp: nth_Cons split: nat.splits)
  qed
qed

lemma findIndex_first:
  "i < length xs \<Longrightarrow> p (xs ! i) \<Longrightarrow> \<forall>j<i. \<not> p (xs ! j) \<Longrightarrow> findIndex p xs = Some i"
proof (induction xs arbitrary: i)
  case Nil
  then show ?case by simp
next
  case (Cons x xs)
  show ?case
  proof (cases i)
    case 0
    with Cons.prems show ?thesis by simp
  next
    case (Suc k)
    with Cons.prems have "\<not> p x" by auto
    moreover from Cons.prems Suc have "findIndex p xs = Some k"
      by (intro Cons.IH) auto
    ultimately show ?thesis using Suc by simp
  qed
qed

lemma double_booked_append:
  "double_booked P (xs @ [a]) \<longleftrightarrow> double_booked P xs \<or> (\<exists>x\<in>set xs. same_start P (startISO x) (startISO a))"
  by (induction xs) (auto simp: list_ex_iff)

lemma double_booked_filter: "\<not> double_booked P xs \<Longrightarrow> \<not> double_booked P (filter q xs)"
  by (induction xs) (auto simp: list_ex_iff)

lemma double_booked_iff:
  "double_booked P xs \<longleftrightarrow> (\<exists>i j. i < j \<and> j < length xs \<and> same_start P (startISO (xs ! i)) (startISO (xs ! j)))"
proof (induction xs)
  case Nil
  then show ?case by simp
next
  case (Cons x xs)
  show ?case (is "?L = ?R")
  proof
    assume ?L
    then consider "\<exists>y\<in>set xs. same_start P (startISO x) (startISO y)" | "double_booked P xs"
      by (auto simp: list_ex_iff)
    then show ?R
    proof cases
      case 1
      then obtain k where "k < length xs" "same_start P (startISO x) (startISO (xs ! k))"
        by (auto simp: in_set_conv_nth)
      then have "0 < Suc k \<and> Suc k < length (x # xs) \<and> same_start P (startISO ((x # xs) ! 0)) (startISO ((x # xs) ! Suc k))"
        by simp
      then show ?thesis by blast
    next
      case 2
      with Cons.IH obtain i j where "i < j" "j < length xs" "same_start P (startISO (xs ! i)) (startISO (xs ! j))"
        by blast
      then have "Suc i < Suc j \<and> Suc j < length (x # xs) \<and> same_start P (startISO ((x # xs) ! Suc i)) (startISO ((x # xs) ! Suc j))"
        by simp
      then show ?thesis by blast
    qed
  next
    assume ?R
    then obtain i j where ij: "i < j" "j < length (x # xs)" "same_start P (startISO ((x # xs) ! i)) (startISO ((x # xs) ! j))"
      by blast
    then obtain j' where j': "j = Suc j'" by (cases j) auto
    show ?L
    proof (cases i)
      case 0
      with ij j' have "xs ! j' \<in> set xs" "same_start P (startISO x) (startISO (xs ! j'))" by auto
      then show ?thesis by (auto simp: list_ex_iff)
    next
      case (Suc i')
      with ij j' have "i' < j' \<and> j' < length xs \<and> same_start P (startISO (xs ! i')) (startISO (xs ! j'))" by auto
      with Cons.IH have "double_booked P xs" by blast
      then show ?thesis by simp
    qed
  qed
qed

lemma ToString_js_or_str:
  "ToString P (js_or a (JStr s)) = (case a of None \<Rightarrow> Some s | Some v \<Rightarrow> if ToBoolean v then ToString P v else Some s)"
  by (simp add: js_or_def split: option.splits)

lemma payload_id_obj: "payload_id P (JObj [(''id'', JStr i)]) = Some i"
  by (simp add: payload_id_def getprop_def js_or_def)

lemma startISO_normalizeAppt:
  "normalizeAppt P E payload st = Some a \<Longrightarrow>
   ToString P (js_or (getprop payload ''startISO'') (JStr [])) = Some (startISO a)"
  by (auto simp: normalizeAppt_def bind_eq_Some_conv)

text \<open>Whether \<open>normalizeAppt\<close> throws depends on the payload alone, and so does the start it gives.\<close>

lemma normalizeAppt_env:
  assumes "normalizeAppt P E payload st = Some a"
  shows "\<exists>a'. normalizeAppt P E' payload st' = Some a' \<and> startISO a' = startISO a"
proof -
  have i: "ToString P (js_or (getprop payload ''id'') (JStr (makeId E))) \<noteq> None"
    and c: "ToString P (js_or (getprop payload ''createdISO'') (JStr (nowStamp E))) \<noteq> None"
    using assms by (auto simp: normalizeAppt_def bind_eq_Some_conv)
  have i': "\<exists>x. ToString P (js_or (getprop payload ''id'') (JStr (makeId E'))) = Some x"
    using i by (auto simp: ToString_js_or_str split: option.splits if_splits)
  have c': "\<exists>x. ToString P (js_or (getprop payload ''createdISO'') (JStr (nowStamp E'))) = Some x"
    using c by (auto simp: ToString_js_or_str split: option.splits if_splits)
  from assms i' c' show ?thesis
    by (auto simp: normalizeAppt_def bind_eq_Some_conv)
qed

lemma schedule_request_throws:
  "schedule_request P E payload S = None \<longleftrightarrow> normalizeAppt P E payload ''pending'' = None"
  by (simp add: schedule_request_def split: option.splits)

text \<open>Only \<open>book\<close>, \<open>accept\<close> and \<open>cancel\<close> assign the booked list.\<close>

lemma handler_keeps_BOOKED:
  "schedule_request P E p S = Some (x, T) \<Longrightarrow> BOOKED T = BOOKED S"
  "schedule_reject P p S = Some (x, T) \<Longrightarrow> BOOKED T = BOOKED S"
  "availability_set P p S = Some (x, T) \<Longrightarrow> BOOKED T = BOOKED S"
  "inventory_upsert P E p S = Some (x, T) \<Longrightarrow> BOOKED T = BOOKED S"
  "inventory_delete P p S = Some (x, T) \<Longrightarrow> BOOKED T = BOOKED S"
  "gallery_add P E p S = Some (x, T) \<Longrightarrow> BOOKED T = BOOKED S"
  "gallery_delete P p S = Some (x, T) \<Longrightarrow> BOOKED T = BOOKED S"
  "contact P E p S = Some (x, T) \<Longrightarrow> BOOKED T = BOOKED S"
proof -
  show "schedule_request P E p S = Some (x, T) \<Longrightarrow> BOOKED T = BOOKED S"
    by (auto simp: schedule_request_def Let_def split: option.splits if_splits)
  show "schedule_reject P p S = Some (x, T) \<Longrightarrow> BOOKED T = BOOKED S"
    by (auto simp: schedule_reject_def Let_def split: option.splits if_splits)
  show "availability_set P p S = Some (x, T) \<Longrightarrow> BOOKED T = BOOKED S"
    by (auto simp: availability_set_def split: option.splits)
  show "inventory_upsert P E p S = Some (x, T) \<Longrightarrow> BOOKED T = BOOKED S"
    by (auto simp: inventory_upsert_def Let_def bind_eq_Some_conv)
  show "inventory_delete P p S = Some (x, T) \<Longrightarrow> BOOKED T = BOOKED S"
    by (auto simp: inventory_delete_def split: option.splits if_splits)
  show "gallery_add P E p S = Some (x, T) \<Longrightarrow> BOOKED T = BOOKED S"
    by (auto simp: gallery_add_def Let_def bind_eq_Some_conv split: if_splits)
  show "gallery_delete P p S = Some (x, T) \<Longrightarrow> BOOKED T = BOOKED S"
    by (auto simp: gallery_delete_def split: option.splits if_splits)
  show "contact P E p S = Some (x, T) \<Longrightarrow> BOOKED T = BOOKED S"
    by (auto simp: contact_def Let_def bind_eq_Some_conv)
qed

lemma post_keeps_invariant:
  assumes "\<not> double_booked P (BOOKED S)" and "post P E r S = Some (res, S')"
  shows "\<not> double_booked P (BOOKED S')"
proof -
  have book: "\<not> double_booked P (BOOKED T)" if "schedule_book P E p S = Some (x, T)" for p x T
    using assms(1) that
    by (auto simp: schedule_book_def Let_def double_booked_append hasStart_iff same_start_sym
             split: option.splits if_splits)
  have accept: "\<not> double_booked P (BOOKED T)" if "schedule_accept P p S = Some (x, T)" for p x T
    using assms(1) that
    by (auto simp: schedule_accept_def Let_def double_booked_append hasStart_iff same_start_sym
             split: option.splits if_splits)
  have cancel: "\<not> double_booked P (BOOKED T)" if "schedule_cancel P p S = Some (x, T)" for p x T
    using assms(1) that
    by (auto simp: schedule_cancel_def Let_def double_booked_filter split: option.splits if_splits)
  have req: "\<not> double_booked P (BOOKED T)" if "schedule_request P E p S = Some (x, T)" for p x T
    using assms(1) handler_keeps_BOOKED(1)[OF that] by simp
  have rej: "\<not> double_booked P (BOOKED T)" if "schedule_reject P p S = Some (x, T)" for p x T
    using assms(1) handler_keeps_BOOKED(2)[OF that] by simp
  have av: "\<not> double_booked P (BOOKED T)" if "availability_set P p S = Some (x, T)" for p x T
    using assms(1) handler_keeps_BOOKED(3)[OF that] by simp
  have up: "\<not> double_booked P (BOOKED T)" if "inventory_upsert P E p S = Some (x, T)" for p x T
    using assms(1) handler_keeps_BOOKED(4)[OF that] by simp
  have del: "\<not> double_booked P (BOOKED T)" if "inventory_delete P p S = Some (x, T)" for p x T
    using assms(1) handler_keeps_BOOKED(5)[OF that] by simp
  have ga: "\<not> double_booked P (BOOKED T)" if "gallery_add P E p S = Some (x, T)" for p x T
    using assms(1) handler_keeps_BOOKED(6)[OF that] by simp
  have gd: "\<not> double_booked P (BOOKED T)" if "gallery_delete P p S = Some (x, T)" for p x T
    using assms(1) handler_keeps_BOOKED(7)[OF that] by simp
  have co: "\<not> double_booked P (BOOKED T)" if "contact P E p S = Some (x, T)" for p x T
    using assms(1) handler_keeps_BOOKED(8)[OF that] by simp
  show ?thesis
    using assms book accept cancel req rej av up del ga gd co
    unfolding post_def readBodyJson_def
    by (simp split: if_splits; blast)
qed

lemma run_keeps_invariant:
  "\<not> double_booked P (BOOKED S) \<Longrightarrow> \<not> double_booked P (BOOKED (run P rs S))"
proof (induction rs arbitrary: S)
  case Nil
  then show ?case by simp
next
  case (Cons er rs)
  obtain E r where er: "er = (E, r)" by (cases er)
  show ?case
  proof (cases "post P E r S")
    case None
    with Cons.prems er show ?thesis by (simp add: Cons.IH)
  next
    case (Some x)
    obtain res S' where x: "x = (res, S')" by (cases x)
    from Some x have "post P E r S = Some (res, S')" by simp
    with Cons.prems have "\<not> double_booked P (BOOKED S')"
      by (rule post_keeps_invariant)
    then show ?thesis using er Some x by (simp add: Cons.IH)
  qed
qed

text \<open>
  The states of the examples, which are runs from the empty server, as the records they
  evaluate to.
\<close>

lemmas sample_defs =
  sample_platform_def sample_Date_parse_def sample_StringToNumber_def sample_NumberToString_def
  sample_env_def empty_server_def sample_appt_def sample_post_def id_payload_def appt_payload_def
  DEFAULT_AVAILABILITY_def unconvertible_def sample_bad_name_def sample_bad_conflict_def MAX_BODY_def

lemmas handler_defs =
  post_def readBodyJson_def schedule_request_def schedule_book_def schedule_accept_def schedule_reject_def
  schedule_cancel_def normalizeAppt_def hasStart_def payload_id_def getprop_def js_or_def json_def ok_body_def
  error_body_def count_num_def splice1_def Let_def

lemma sample_clash_eq:
  "sample_clash = empty_server
      \<lparr>BOOKED := [(sample_appt ''b1'' ''2024-01-01T10:00:00.000Z'')\<lparr>name := [], slots := Fin 1, status := ''accepted''\<rparr>],
       PENDING := [(sample_appt ''p1'' ''2024-01-01T10:00:00Z'')\<lparr>name := [], slots := Fin 1\<rparr>]\<rparr>"
  by (simp add: sample_clash_def sample_defs handler_defs)

lemma sample_twins_eq:
  "sample_twins = empty_server
      \<lparr>PENDING := [(sample_appt ''x'' ''2024-01-01T10:00:00Z'')\<lparr>name := [], slots := Fin 1\<rparr>,
                   (sample_appt ''x'' ''2024-01-01T11:00:00Z'')\<lparr>name := [], slots := Fin 1\<rparr>]\<rparr>"
  by (simp add: sample_twins_def sample_defs handler_defs)

lemma sample_noid_eq:
  "sample_noid = empty_server
      \<lparr>PENDING := [(sample_appt [] ''2024-01-01T10:00:00Z'')\<lparr>name := [], slots := Fin 1\<rparr>]\<rparr>"
  by (simp add: sample_noid_def sample_defs handler_defs)

lemma sample_soon_pending_eq:
  "sample_soon_pending = empty_server
      \<lparr>PENDING := [(sample_appt ''n1'' ''soon'')\<lparr>name := [], slots := Fin 1\<rparr>]\<rparr>"
  by (simp add: sample_soon_pending_def sample_defs handler_defs)

lemma sample_soon_booked_eq:
  "sample_soon_booked = empty_server
      \<lparr>BOOKED := [(sample_appt ''b1'' ''soon'')\<lparr>name := [], slots := Fin 1, status := ''accepted''\<rparr>,
                  (sample_appt ''b2'' ''soon'')\<lparr>name := [], slots := Fin 1, status := ''accepted''\<rparr>]\<rparr>"
  by (simp add: sample_soon_booked_def sample_defs handler_defs)

lemma those_length: "those xs = Some ys \<Longrightarrow> length ys = length xs"
  by (induction xs arbitrary: ys) (auto split: option.splits)

lemma those_map_Some: "\<forall>x\<in>set xs. f x \<noteq> None \<Longrightarrow> \<exists>ys. those (map f xs) = Some ys"
  by (induction xs) auto

section \<open>Requests\<close>

text \<open>
  Claim C1, as stated, fails. The handler compares start times by the value of
  \<open>Date.parse\<close> and counts a string that does not parse as no start time at all: while
  a request for \<open>soon\<close> is pending, a second request for \<open>soon\<close> is answered 200
  and appended. And a request is not always answered: when a field of the payload is an
  object with a property \<open>toString\<close>, \<open>normalizeAppt\<close> throws, also where the start
  of the request is pending already, and the request gets neither 200 nor 409.
\<close>

theorem request_same_string_counterexample:
  "map startISO (PENDING sample_soon_pending) = [''soon'']
 \<and> map_option (\<lambda>(r, S'). (code r, map startISO (PENDING S')))
      (schedule_request sample_platform (sample_env ''n2'') (appt_payload ''n2'' ''soon'') sample_soon_pending)
    = Some (200, [''soon'', ''soon''])
 \<and> map startISO (PENDING sample_clash) = [''2024-01-01T10:00:00Z'']
 \<and> Date_parse sample_platform ''2024-01-01T10:00:00Z'' = Date_parse sample_platform ''2024-01-01T10:00:00.000Z''
 \<and> schedule_request sample_platform (sample_env ''n2'') sample_bad_conflict sample_clash = None"
  by (simp add: sample_soon_pending_eq sample_clash_eq sample_defs handler_defs)

text \<open>
  Claim C1, amended. For every state of the server and every POST to /api/schedule/request
  whose fields \<open>normalizeAppt\<close> converts and whose \<open>startISO\<close> is not empty, the request
  is answered; it is answered 200 exactly when no appointment in the booked or the pending
  list has a \<open>startISO\<close> with the same finite value of \<open>Date.parse\<close>, and then the
  appointment is appended to the pending list and nothing else changes; when there is such
  an appointment the answer is 409 and the state is unchanged.
\<close>

theorem request_conflict:
  assumes a: "normalizeAppt P E payload ''pending'' = Some a"
    and ne: "startISO a \<noteq> []"
  shows "\<exists>r S'. schedule_request P E payload S = Some (r, S')
       \<and> (code r = 200 \<longleftrightarrow>
            (\<forall>x\<in>set (BOOKED S) \<union> set (PENDING S). \<not> same_start P (startISO a) (startISO x)))
       \<and> (code r = 200 \<longrightarrow> S' = S\<lparr>PENDING := PENDING S @ [a]\<rparr>)
       \<and> ((\<exists>x\<in>set (BOOKED S) \<union> set (PENDING S). same_start P (startISO a) (startISO x)) \<longrightarrow>
            code r = 409 \<and> S' = S)"
  using ne a
  by (auto simp: schedule_request_def Let_def json_def hasStart_iff)

text \<open>
  Claim C1, amended, at an input: a request for 10:00, in another spelling, while 10:00 is
  booked and pending.
\<close>

theorem request_conflict_witness:
  "normalizeAppt sample_platform (sample_env ''n1'') (appt_payload ''n1'' ''2024-01-01T10:00:00.000Z'') ''pending''
     = Some ((sample_appt ''n1'' ''2024-01-01T10:00:00.000Z'')\<lparr>name := [], slots := Fin 1\<rparr>)
 \<and> (\<exists>r. schedule_request sample_platform (sample_env ''n1'') (appt_payload ''n1'' ''2024-01-01T10:00:00.000Z'') sample_clash
        = Some (r, sample_clash) \<and> code r = 409)"
proof -
  let ?a = "(sample_appt ''n1'' ''2024-01-01T10:00:00.000Z'')\<lparr>name := [], slots := Fin 1\<rparr>"
  let ?p = "appt_payload ''n1'' ''2024-01-01T10:00:00.000Z''"
  have h: "normalizeAppt sample_platform (sample_env ''n1'') ?p ''pending'' = Some ?a"
    by (simp add: sample_defs handler_defs)
  have ne: "startISO ?a \<noteq> []" by (simp add: sample_appt_def)
  have c: "\<exists>x\<in>set (BOOKED sample_clash) \<union> set (PENDING sample_clash). same_start sample_platform (startISO ?a) (startISO x)"
    by (simp add: sample_clash_eq sample_defs same_start_def)
  from request_conflict[OF h ne, of sample_clash] obtain r S' where
      r: "schedule_request sample_platform (sample_env ''n1'') ?p sample_clash = Some (r, S')"
    and k: "(\<exists>x\<in>set (BOOKED sample_clash) \<union> set (PENDING sample_clash).
               same_start sample_platform (startISO ?a) (startISO x)) \<longrightarrow> code r = 409 \<and> S' = sample_clash"
    by blast
  from k c have "code r = 409 \<and> S' = sample_clash" by (rule mp)
  with r h show ?thesis by blast
qed

section \<open>Accepting a pending request\<close>

text \<open>
  Claim C2, as stated, fails: when the start of the pending request is booked already, the
  handler removes the request from the pending list and then answers 409.
\<close>

theorem accept_drops_pending_on_conflict:
  "map startISO (PENDING sample_clash) = [''2024-01-01T10:00:00Z'']
 \<and> map_option (\<lambda>(r, S'). (code r, PENDING S', BOOKED S' = BOOKED sample_clash))
      (schedule_accept sample_platform (id_payload ''p1'') sample_clash)
    = Some (409, [], True)"
  by (simp add: sample_clash_eq sample_defs handler_defs)

text \<open>
  Claim C2, amended. Whenever POST /api/schedule/accept answers with an error, the booked
  list is as before; on 400 and 404 the whole state is as before; on 409 the pending entry
  with the given id, whose start is booked already, has been removed from the pending list
  and nothing else has changed. On 200 that pending entry has been removed from the pending
  list and appended, with status \<open>accepted\<close>, to the booked list, and nothing else has
  changed. So the booked list changes only together with the removal from the pending
  list.
\<close>

theorem accept_effects:
  assumes "schedule_accept P payload S = Some (r, S')"
  shows "(code r \<noteq> 200 \<longrightarrow> BOOKED S' = BOOKED S)
       \<and> (code r \<noteq> 200 \<and> code r \<noteq> 409 \<longrightarrow> S' = S)
       \<and> (code r = 409 \<longrightarrow>
            (\<exists>idx<length (PENDING S).
                payload_id P payload = Some (appt_id (PENDING S ! idx))
              \<and> (\<exists>x\<in>set (BOOKED S). same_start P (startISO (PENDING S ! idx)) (startISO x))
              \<and> S' = S\<lparr>PENDING := splice1 idx (PENDING S)\<rparr>))
       \<and> (code r = 200 \<longrightarrow>
            (\<exists>idx<length (PENDING S).
                payload_id P payload = Some (appt_id (PENDING S ! idx))
              \<and> S' = S\<lparr>PENDING := splice1 idx (PENDING S),
                       BOOKED := BOOKED S @ [(PENDING S ! idx)\<lparr>status := ''accepted''\<rparr>]\<rparr>))
       \<and> (BOOKED S' \<noteq> BOOKED S \<longrightarrow> code r = 200)"
  using assms
  by (auto simp: schedule_accept_def Let_def json_def hasStart_iff split: option.splits if_splits
           dest!: findIndex_Some)

text \<open>
  Claim C2, amended, at an input: accepting the pending request of \<open>sample_clash\<close>,
  whose start is booked.
\<close>

theorem accept_effects_witness:
  "(\<exists>r S'. schedule_accept sample_platform (id_payload ''p1'') sample_clash = Some (r, S')
      \<and> code r \<noteq> 200 \<and> BOOKED S' = BOOKED sample_clash)"
proof -
  obtain r S' where h: "schedule_accept sample_platform (id_payload ''p1'') sample_clash = Some (r, S')"
    and c: "code r \<noteq> 200"
    by (simp add: sample_clash_eq sample_defs handler_defs)
  from accept_effects[OF h] c h show ?thesis by blast
qed

text \<open>
  Claim C3, as stated, fails in two states that requests alone reach. With two pending
  requests under one id, accepting the id moves the first of them, which need not be the
  appointment meant. With a pending request whose id is empty, accepting it is answered
  400 and nothing moves.
\<close>

theorem accept_misses_counterexample:
  "map startISO (PENDING sample_twins) = [''2024-01-01T10:00:00Z'', ''2024-01-01T11:00:00Z'']
 \<and> map appt_id (PENDING sample_twins) = [''x'', ''x''] \<and> BOOKED sample_twins = []
 \<and> map_option (\<lambda>(r, S'). (code r, map startISO (PENDING S'), map startISO (BOOKED S')))
      (schedule_accept sample_platform (id_payload ''x'') sample_twins)
    = Some (200, [''2024-01-01T11:00:00Z''], [''2024-01-01T10:00:00Z''])
 \<and> map appt_id (PENDING sample_noid) = [[]] \<and> BOOKED sample_noid = []
 \<and> schedule_accept sample_platform (id_payload []) sample_noid = Some (json 400 (error_body ''Missing id''), sample_noid)"
  by (simp add: sample_twins_eq sample_noid_eq sample_defs handler_defs)

text \<open>
  Claim C3, amended. If \<open>A\<close> is in the pending list, its id is not empty, no pending
  entry before it has the same id, and no booked appointment has the same start time as
  \<open>A\<close>, then POST /api/schedule/accept with the id of \<open>A\<close> answers 200, removes
  \<open>A\<close> from the pending list and appends \<open>A\<close> with status \<open>accepted\<close> to the
  booked list; every other entry of both lists, and the rest of the state, is unchanged.
\<close>

theorem accept_moves_first:
  assumes "idx < length (PENDING S)"
    and "PENDING S ! idx = A"
    and "appt_id A \<noteq> []"
    and "\<forall>j<idx. appt_id (PENDING S ! j) \<noteq> appt_id A"
    and "\<forall>x\<in>set (BOOKED S). \<not> same_start P (startISO A) (startISO x)"
  shows "schedule_accept P (JObj [(''id'', JStr (appt_id A))]) S =
           Some (json 200 (ok_body [(''id'', JStr (appt_id A))]),
                 S\<lparr>PENDING := take idx (PENDING S) @ drop (Suc idx) (PENDING S),
                   BOOKED := BOOKED S @ [A\<lparr>status := ''accepted''\<rparr>]\<rparr>)"
proof -
  have "findIndex (\<lambda>x. appt_id x = appt_id A) (PENDING S) = Some idx"
    using assms(1,2,4) by (intro findIndex_first) auto
  then show ?thesis
    using assms(2,3,5)
    by (simp add: schedule_accept_def payload_id_obj Let_def hasStart_iff splice1_def)
qed

text \<open>
  Claim C3, amended, at an input: accepting the first of two pending requests.
\<close>

theorem accept_moves_first_witness:
  "schedule_accept sample_platform (JObj [(''id'', JStr ''p1'')])
      (empty_server\<lparr>PENDING := [sample_appt ''p1'' ''2024-01-01T10:00:00Z'', sample_appt ''p2'' ''2024-01-01T11:00:00Z'']\<rparr>)
    = Some (json 200 (ok_body [(''id'', JStr ''p1'')]),
       empty_server\<lparr>PENDING := [sample_appt ''p2'' ''2024-01-01T11:00:00Z''],
                    BOOKED := [(sample_appt ''p1'' ''2024-01-01T10:00:00Z'')\<lparr>status := ''accepted''\<rparr>]\<rparr>)"
proof -
  let ?A = "sample_appt ''p1'' ''2024-01-01T10:00:00Z''"
  let ?S = "empty_server\<lparr>PENDING := [?A, sample_appt ''p2'' ''2024-01-01T11:00:00Z'']\<rparr>"
  have 1: "0 < length (PENDING ?S)" by simp
  have 2: "PENDING ?S ! 0 = ?A" by simp
  have 3: "appt_id ?A \<noteq> []" by (simp add: sample_appt_def)
  have 4: "\<forall>j<0. appt_id (PENDING ?S ! j) \<noteq> appt_id ?A" by simp
  have 5: "\<forall>x\<in>set (BOOKED ?S). \<not> same_start sample_platform (startISO ?A) (startISO x)"
    by (simp add: empty_server_def)
  from accept_moves_first[OF 1 2 3 4 5] show ?thesis
    by (simp add: sample_appt_def empty_server_def)
qed

section \<open>No double booking\<close>

text \<open>
  Claim C4, as stated, fails: two POST /api/schedule/book for the start \<open>soon\<close>, which
  \<open>Date.parse\<close> rejects, are both answered 200, and the booked list then holds two
  appointments with the same \<open>startISO\<close>. \<open>hasStart\<close> returns false for a string
  that does not parse before it looks at the list.
\<close>

theorem booked_same_string_counterexample:
  "BOOKED empty_server = [] \<and> PENDING empty_server = []
 \<and> map startISO (BOOKED sample_soon_booked) = [''soon'', ''soon'']
 \<and> map appt_id (BOOKED sample_soon_booked) = [''b1'', ''b2'']"
  by (simp add: sample_soon_booked_eq) (simp add: sample_appt_def empty_server_def)

text \<open>
  Claim C4, amended. In every state that a sequence of POST requests (to any route, with
  any payload) reaches from a server whose lists are empty, no two appointments in the
  booked list have a \<open>startISO\<close> with the same finite value of \<open>Date.parse\<close>.
\<close>

theorem no_double_booking:
  assumes "BOOKED S = []" and "PENDING S = []"
  shows "\<not> double_booked P (BOOKED (run P rs S))
       \<and> (\<forall>i j. i < j \<and> j < length (BOOKED (run P rs S)) \<longrightarrow>
             \<not> same_start P (startISO (BOOKED (run P rs S) ! i)) (startISO (BOOKED (run P rs S) ! j)))"
proof -
  have "\<not> double_booked P (BOOKED S)" using assms(1) by simp
  then have inv: "\<not> double_booked P (BOOKED (run P rs S))" by (rule run_keeps_invariant)
  then show ?thesis unfolding double_booked_iff by blast
qed

text \<open>
  Claim C4, amended, at an input: after two bookings of one instant in two spellings.
\<close>

theorem no_double_booking_witness:
  "BOOKED empty_server = [] \<and> PENDING empty_server = []
 \<and> \<not> double_booked sample_platform (BOOKED (run sample_platform
        [(sample_env ''b1'', sample_post ''/api/schedule/book'' (appt_payload ''b1'' ''2024-01-01T10:00:00Z'')),
         (sample_env ''b2'', sample_post ''/api/schedule/book'' (appt_payload ''b2'' ''2024-01-01T10:00:00.000Z''))]
        empty_server))"
proof -
  have h1: "BOOKED empty_server = []" and h2: "PENDING empty_server = []"
    by (simp_all add: empty_server_def)
  from no_double_booking[OF h1 h2] h1 h2 show ?thesis by blast
qed

section \<open>Start times are compared as time values\<close>

lemma unparseable_request:
  assumes "normalizeAppt P E payload ''pending'' = Some a" and "startISO a \<noteq> []"
    and "Date_parse P (startISO a) = None"
  shows "schedule_request P E payload S =
           Some (json 200 (ok_body [(''id'', JStr (appt_id a)), (''pendingCount'', count_num (PENDING S @ [a]))]),
                 S\<lparr>PENDING := PENDING S @ [a]\<rparr>)"
  using assms by (simp add: schedule_request_def hasStart_def Let_def)

lemma unparseable_requests_run:
  assumes a: "normalizeAppt P E payload ''pending'' = Some a" and ne: "startISO a \<noteq> []"
    and np: "Date_parse P (startISO a) = None" and n: "n \<le> MAX_BODY"
  shows "\<exists>as. those (map (\<lambda>E'. normalizeAppt P E' payload ''pending'') Es) = Some as
            \<and> (\<forall>x\<in>set as. startISO x = startISO a)
            \<and> PENDING (run P (map (\<lambda>E'. (E', \<lparr>req_url = ''/api/schedule/request'', req_headers = h,
                                               req_length = n, req_payload = payload\<rparr>)) Es) S)
                = PENDING S @ as"
proof (induction Es arbitrary: S)
  case Nil
  then show ?case by simp
next
  case (Cons E' Es)
  let ?r = "\<lambda>E'. (E', \<lparr>req_url = ''/api/schedule/request'', req_headers = h, req_length = n, req_payload = payload\<rparr>)"
  from normalizeAppt_env[OF a, of E' "''pending''"] obtain a' where
    a': "normalizeAppt P E' payload ''pending'' = Some a'" and s: "startISO a' = startISO a"
    by blast
  have "schedule_request P E' payload S =
          Some (json 200 (ok_body [(''id'', JStr (appt_id a')), (''pendingCount'', count_num (PENDING S @ [a']))]),
                S\<lparr>PENDING := PENDING S @ [a']\<rparr>)"
    using a' ne np s by (intro unparseable_request) simp_all
  then have step: "run P (map ?r (E' # Es)) S = run P (map ?r Es) (S\<lparr>PENDING := PENDING S @ [a']\<rparr>)"
    using n by (simp add: post_def readBodyJson_def)
  from Cons.IH[of "S\<lparr>PENDING := PENDING S @ [a']\<rparr>"] obtain as where
    as: "those (map (\<lambda>E'. normalizeAppt P E' payload ''pending'') Es) = Some as"
    and ss: "\<forall>x\<in>set as. startISO x = startISO a"
    and p: "PENDING (run P (map ?r Es) (S\<lparr>PENDING := PENDING S @ [a']\<rparr>)) = PENDING S @ a' # as"
    by auto
  have "those (map (\<lambda>E'. normalizeAppt P E' payload ''pending'') (E' # Es)) = Some (a' # as)"
    using a' as by simp
  moreover have "\<forall>x\<in>set (a' # as). startISO x = startISO a" using s ss by simp
  moreover have "PENDING (run P (map ?r (E' # Es)) S) = PENDING S @ a' # as"
    using step p by simp
  ultimately show ?case by blast
qed

text \<open>
  Claim C8, as stated, fails in its last part: a request whose \<open>startISO\<close> is
  \<open>soon\<close> and whose name is an object with a property \<open>toString\<close> is not
  accepted. \<open>normalizeAppt\<close> throws at the name, the request gets no answer, and the
  pending list stays empty however often the request is sent.
\<close>

theorem unconvertible_request_not_accepted:
  "getprop sample_bad_name ''startISO'' = Some (JStr ''soon'')
 \<and> Date_parse sample_platform ''soon'' = None
 \<and> schedule_request sample_platform (sample_env ''n1'') sample_bad_name empty_server = None
 \<and> PENDING (run sample_platform
      [(sample_env ''n1'', sample_post ''/api/schedule/request'' sample_bad_name),
       (sample_env ''n2'', sample_post ''/api/schedule/request'' sample_bad_name)]
      empty_server) = []"
  by (simp add: sample_defs handler_defs)

text \<open>
  Claim C8, amended. \<open>hasStart\<close> finds a conflict exactly when the list has an entry
  whose \<open>startISO\<close> parses to the same finite time value as the given string. So two
  strings with the same value of \<open>Date.parse\<close> conflict with the same entries, and a
  string that does not parse conflicts with nothing: a request whose fields
  \<open>normalizeAppt\<close> converts and whose non-empty \<open>startISO\<close> does not parse is
  answered 200 and appended to the pending list in every state, and any number of requests
  with that payload, each within the limit on the length of the body, are all appended.
\<close>

theorem start_times_compared_by_timestamp:
  "(hasStart P xs s \<longleftrightarrow> (\<exists>x\<in>set xs. \<exists>t. Date_parse P s = Some t \<and> Date_parse P (startISO x) = Some t))
 \<and> (Date_parse P s = Date_parse P s' \<longrightarrow> hasStart P xs s = hasStart P xs s')
 \<and> (Date_parse P s = None \<longrightarrow> \<not> hasStart P xs s)
 \<and> (normalizeAppt P E payload ''pending'' = Some a \<and> startISO a \<noteq> [] \<and> Date_parse P (startISO a) = None \<longrightarrow>
        (\<exists>r. schedule_request P E payload S = Some (r, S\<lparr>PENDING := PENDING S @ [a]\<rparr>) \<and> code r = 200)
      \<and> (n \<le> MAX_BODY \<longrightarrow>
           (\<exists>as. those (map (\<lambda>E'. normalizeAppt P E' payload ''pending'') Es) = Some as
               \<and> length as = length Es
               \<and> (\<forall>x\<in>set as. startISO x = startISO a)
               \<and> PENDING (run P (map (\<lambda>E'. (E', \<lparr>req_url = ''/api/schedule/request'', req_headers = h,
                                                  req_length = n, req_payload = payload\<rparr>)) Es) S)
                   = PENDING S @ as)))"
proof -
  have 1: "hasStart P xs s \<longleftrightarrow> (\<exists>x\<in>set xs. \<exists>t. Date_parse P s = Some t \<and> Date_parse P (startISO x) = Some t)"
    by (auto simp: hasStart_def list_ex_iff split: option.splits)
  have 2: "Date_parse P s = Date_parse P s' \<longrightarrow> hasStart P xs s = hasStart P xs s'"
    by (simp add: hasStart_def)
  have 3: "Date_parse P s = None \<longrightarrow> \<not> hasStart P xs s"
    by (simp add: hasStart_def)
  have 4: "\<exists>r. schedule_request P E payload S = Some (r, S\<lparr>PENDING := PENDING S @ [a]\<rparr>) \<and> code r = 200"
    if "normalizeAppt P E payload ''pending'' = Some a" "startISO a \<noteq> []" "Date_parse P (startISO a) = None"
    using unparseable_request[OF that] by (simp add: json_def)
  have 5: "\<exists>as. those (map (\<lambda>E'. normalizeAppt P E' payload ''pending'') Es) = Some as
               \<and> length as = length Es
               \<and> (\<forall>x\<in>set as. startISO x = startISO a)
               \<and> PENDING (run P (map (\<lambda>E'. (E', \<lparr>req_url = ''/api/schedule/request'', req_headers = h,
                                                  req_length = n, req_payload = payload\<rparr>)) Es) S)
                   = PENDING S @ as"
    if "normalizeAppt P E payload ''pending'' = Some a" "startISO a \<noteq> []" "Date_parse P (startISO a) = None"
       "n \<le> MAX_BODY"
  proof -
    from unparseable_requests_run[OF that, of Es h S] obtain as where
      t: "those (map (\<lambda>E'. normalizeAppt P E' payload ''pending'') Es) = Some as"
      and r: "(\<forall>x\<in>set as. startISO x = startISO a)
        \<and> PENDING (run P (map (\<lambda>E'. (E', \<lparr>req_url = ''/api/schedule/request'', req_headers = h,
                                                  req_length = n, req_payload = payload\<rparr>)) Es) S)
                   = PENDING S @ as"
      by blast
    from those_length[OF t] have "length as = length Es" by simp
    with t r show ?thesis by blast
  qed
  from 1 2 3 4 5 show ?thesis by blast
qed

text \<open>
  Claim C8, amended, at an input: two spellings of one instant conflict, and the request
  for \<open>soon\<close> is accepted while \<open>soon\<close> is pending, and twice in a row.
\<close>

theorem start_times_compared_by_timestamp_witness:
  "hasStart sample_platform [sample_appt ''p1'' ''2024-01-01T10:00:00Z''] ''2024-01-01T10:00:00.000Z''
 \<and> Date_parse sample_platform ''soon'' = None
 \<and> normalizeAppt sample_platform (sample_env ''n1'') (appt_payload ''n1'' ''soon'') ''pending''
     = Some ((sample_appt ''n1'' ''soon'')\<lparr>name := [], slots := Fin 1\<rparr>)
 \<and> (\<exists>r. schedule_request sample_platform (sample_env ''n1'') (appt_payload ''n1'' ''soon'')
            (empty_server\<lparr>PENDING := [sample_appt ''p1'' ''soon'']\<rparr>)
          = Some (r, empty_server\<lparr>PENDING := [sample_appt ''p1'' ''soon'',
                                               (sample_appt ''n1'' ''soon'')\<lparr>name := [], slots := Fin 1\<rparr>]\<rparr>)
        \<and> code r = 200)
 \<and> map startISO (PENDING (run sample_platform
        (map (\<lambda>E'. (E', \<lparr>req_url = ''/api/schedule/request'', req_headers = [], req_length = 100,
                          req_payload = appt_payload ''n1'' ''soon''\<rparr>))
           [sample_env ''n1'', sample_env ''n2''])
        empty_server))
    = [''soon'', ''soon'']"
proof -
  let ?p = "appt_payload ''n1'' ''soon''"
  let ?a = "(sample_appt ''n1'' ''soon'')\<lparr>name := [], slots := Fin 1\<rparr>"
  let ?S = "empty_server\<lparr>PENDING := [sample_appt ''p1'' ''soon'']\<rparr>"
  let ?rs = "map (\<lambda>E'. (E', \<lparr>req_url = ''/api/schedule/request'', req_headers = [], req_length = 100,
                          req_payload = ?p\<rparr>)) [sample_env ''n1'', sample_env ''n2'']"
  have a: "\<exists>x\<in>set [sample_appt ''p1'' ''2024-01-01T10:00:00Z'']. \<exists>t. Date_parse sample_platform ''2024-01-01T10:00:00.000Z'' = Some t
             \<and> Date_parse sample_platform (startISO x) = Some t"
    by (simp add: sample_defs)
  have b: "Date_parse sample_platform ''soon'' = None"
    by (simp add: sample_defs)
  have c: "normalizeAppt sample_platform (sample_env ''n1'') ?p ''pending'' = Some ?a"
    by (simp add: sample_defs handler_defs)
  have d: "startISO ?a \<noteq> [] \<and> Date_parse sample_platform (startISO ?a) = None"
    by (simp add: sample_defs)
  have m: "(100::nat) \<le> MAX_BODY" by (simp add: MAX_BODY_def)
  have e: "PENDING empty_server = []" by (simp add: empty_server_def)
  from start_times_compared_by_timestamp[of sample_platform "[sample_appt ''p1'' ''2024-01-01T10:00:00Z'']"
      "''2024-01-01T10:00:00.000Z''" "''2024-01-01T10:00:00.000Z''" "sample_env ''n1''" ?p ?a ?S 100
      "[sample_env ''n1'', sample_env ''n2'']" "[]"]
  have 1: "hasStart sample_platform [sample_appt ''p1'' ''2024-01-01T10:00:00Z''] ''2024-01-01T10:00:00.000Z''"
    and 2: "\<exists>r. schedule_request sample_platform (sample_env ''n1'') ?p ?S = Some (r, ?S\<lparr>PENDING := PENDING ?S @ [?a]\<rparr>) \<and> code r = 200"
    using a c d by blast+
  from start_times_compared_by_timestamp[of sample_platform "[]" "[]" "[]" "sample_env ''n1''" ?p ?a
      empty_server 100 "[sample_env ''n1'', sample_env ''n2'']" "[]"] c d m
  obtain as where 3: "\<forall>x\<in>set as. startISO x = startISO ?a" and 4: "length as = length [sample_env ''n1'', sample_env ''n2'']"
    and 5: "PENDING (run sample_platform ?rs empty_server) = PENDING empty_server @ as"
    by blast
  from 3 4 have "map startISO as = [''soon'', ''soon'']"
    by (cases as; cases "tl as"; cases "tl (tl as)") (auto simp: sample_appt_def)
  with 5 e have 6: "map startISO (PENDING (run sample_platform ?rs empty_server)) = [''soon'', ''soon'']"
    by simp
  from 1 b c 2 6 show ?thesis by (simp add: empty_server_def)
qed

section \<open>Reject and cancel\<close>

text \<open>
  Claim C10, as stated, fails for the empty id: the call answers 400, not 404, and a
  pending entry whose id is empty (\<open>sample_noid\<close>) is not removed. And an id that
  \<open>String\<close> cannot convert gets no answer.
\<close>

theorem reject_empty_id_counterexample:
  "schedule_reject sample_platform (id_payload []) empty_server = Some (json 400 (error_body ''Missing id''), empty_server)
 \<and> map appt_id (PENDING sample_noid) = [[]]
 \<and> schedule_reject sample_platform (id_payload []) sample_noid = Some (json 400 (error_body ''Missing id''), sample_noid)
 \<and> schedule_reject sample_platform (JObj [(''id'', unconvertible)]) empty_server = None
 \<and> schedule_cancel sample_platform (JObj [(''id'', unconvertible)]) empty_server = None"
  by (simp add: sample_noid_eq sample_defs handler_defs)

text \<open>
  Claim C10, amended. For every state and every payload whose id \<open>String\<close> converts
  to a non-empty string, POST /api/schedule/reject removes exactly the pending entries with
  that id and changes nothing else; it answers 200 if there was such an entry and 404, with
  the state unchanged, if there was none. POST /api/schedule/cancel does the same on the
  booked list. With an empty or missing id both answer 400 and leave the state unchanged.
\<close>

theorem delete_frames:
  assumes "payload_id P payload = Some i"
  shows "(i \<noteq> [] \<longrightarrow>
            (\<exists>r. schedule_reject P payload S = Some (r, S\<lparr>PENDING := filter (\<lambda>x. appt_id x \<noteq> i) (PENDING S)\<rparr>)
                \<and> code r = (if \<exists>x\<in>set (PENDING S). appt_id x = i then 200 else 404))
          \<and> ((\<forall>x\<in>set (PENDING S). appt_id x \<noteq> i) \<longrightarrow> (\<exists>r. schedule_reject P payload S = Some (r, S)))
          \<and> (\<exists>r. schedule_cancel P payload S = Some (r, S\<lparr>BOOKED := filter (\<lambda>x. appt_id x \<noteq> i) (BOOKED S)\<rparr>)
                \<and> code r = (if \<exists>x\<in>set (BOOKED S). appt_id x = i then 200 else 404))
          \<and> ((\<forall>x\<in>set (BOOKED S). appt_id x \<noteq> i) \<longrightarrow> (\<exists>r. schedule_cancel P payload S = Some (r, S))))
       \<and> (i = [] \<longrightarrow>
            schedule_reject P payload S = Some (json 400 (error_body ''Missing id''), S)
          \<and> schedule_cancel P payload S = Some (json 400 (error_body ''Missing id''), S))"
proof -
  have len: "\<And>q xs. (length (filter q xs) = length (xs::appt list)) = (\<forall>x\<in>set xs. q x)"
    by (metis filter_id_conv length_filter_less less_irrefl)
  show ?thesis
    using assms
    by (auto simp: schedule_reject_def schedule_cancel_def Let_def json_def len)
qed

text \<open>
  Claim C10, amended, at an input: rejecting and cancelling the id of the pending request
  of \<open>sample_clash\<close>.
\<close>

theorem delete_frames_witness:
  "payload_id sample_platform (id_payload ''p1'') = Some ''p1''
 \<and> (\<exists>r. schedule_reject sample_platform (id_payload ''p1'') sample_clash = Some (r, sample_clash\<lparr>PENDING := []\<rparr>)
        \<and> code r = 200)
 \<and> (\<exists>r. schedule_cancel sample_platform (id_payload ''p1'') sample_clash = Some (r, sample_clash)
        \<and> code r = 404)"
proof -
  have h: "payload_id sample_platform (id_payload ''p1'') = Some ''p1''"
    by (simp add: id_payload_def payload_id_obj)
  have ne: "''p1'' \<noteq> []" by simp
  have p: "filter (\<lambda>x. appt_id x \<noteq> ''p1'') (PENDING sample_clash) = []"
    and b: "filter (\<lambda>x. appt_id x \<noteq> ''p1'') (BOOKED sample_clash) = BOOKED sample_clash"
    and pe: "\<exists>x\<in>set (PENDING sample_clash). appt_id x = ''p1''"
    and be: "\<not> (\<exists>x\<in>set (BOOKED sample_clash). appt_id x = ''p1'')"
    by (simp_all add: sample_clash_eq sample_defs)
  from delete_frames[OF h, of sample_clash] ne p b pe be h show ?thesis
    by simp
qed

section \<open>Lemmas about availability\<close>

lemma set_fold_Set_add: "set (fold Set_add xs acc) = set xs \<union> set acc"
  by (induction xs arbitrary: acc) (auto simp: Set_add_def)

lemma distinct_fold_Set_add: "distinct acc \<Longrightarrow> distinct (fold Set_add xs acc)"
  by (induction xs arbitrary: acc) (auto simp: Set_add_def)

lemma fold_Set_add_distinct: "distinct (acc @ xs) \<Longrightarrow> fold Set_add xs acc = acc @ xs"
  by (induction xs arbitrary: acc) (auto simp: Set_add_def)

lemma set_new_Set [simp]: "set (new_Set xs) = set xs"
  by (simp add: new_Set_def set_fold_Set_add)

lemma distinct_new_Set [simp]: "distinct (new_Set xs)"
  by (simp add: new_Set_def distinct_fold_Set_add)

lemma new_Set_distinct: "distinct xs \<Longrightarrow> new_Set xs = xs"
  using fold_Set_add_distinct[of "[]" xs] by (simp add: new_Set_def)

lemma set_normal_list: "set (normal_list xs) = set xs - {[]}"
  by (auto simp: normal_list_def)

lemma distinct_normal_list: "distinct (normal_list xs)"
  by (simp add: normal_list_def)

lemma sorted_normal_list: "sorted (normal_list xs)"
  by (simp add: normal_list_def)

lemma normal_list_Nil [simp]: "normal_list [] = []"
  by (simp add: normal_list_def new_Set_def)

lemma normal_list_id:
  assumes "sorted xs" "distinct xs" "[] \<notin> set xs"
  shows "normal_list xs = xs"
proof -
  have "filter (\<lambda>s. s \<noteq> []) xs = xs" using assms(3) by (induction xs) auto
  then show ?thesis using assms(1,2) by (simp add: normal_list_def new_Set_distinct sorted_sort_id)
qed

lemma normal_list_idem: "normal_list (normal_list xs) = normal_list xs"
  by (rule normal_list_id) (auto simp: sorted_normal_list distinct_normal_list set_normal_list)

text \<open>The loop over the keys ends normally exactly when every array converts.\<close>

lemma normalize_blocks_fold:
  "normalize_blocks P b ks out =
     (if \<forall>k\<in>set ks. map_String P b k \<noteq> None
      then Some (fold (store_list (\<lambda>k. normal_list (case map_String P b k of None \<Rightarrow> [] | Some ss \<Rightarrow> ss))) ks out)
      else None)"
proof (induction ks arbitrary: out)
  case Nil
  then show ?case by simp
next
  case (Cons k ks)
  show ?case
  proof (cases "map_String P b k")
    case None
    then show ?thesis by (simp add: normalize_block_def)
  next
    case (Some ss)
    then have "normalize_block P b k out =
        Some (store_list (\<lambda>k. normal_list (case map_String P b k of None \<Rightarrow> [] | Some ss \<Rightarrow> ss)) k out)"
      by (simp add: normalize_block_def store_list_def normal_list_def Let_def)
    then show ?thesis using Some Cons.IH by simp
  qed
qed

lemma map_of_fold_store:
  "map_of (fold (store_list g) ks acc) k =
     (if k \<in> set ks \<and> g k \<noteq> [] \<and> k \<noteq> ''__proto__'' then Some (g k) else map_of acc k)"
  by (induction ks arbitrary: acc) (auto simp: store_list_def update_conv')

lemma distinct_fold_store:
  "distinct (map fst acc) \<Longrightarrow> distinct (map fst (fold (store_list g) ks acc))"
  by (induction ks arbitrary: acc) (auto simp: store_list_def distinct_update)

text \<open>What an answered POST /api/availability/set has stored.\<close>

lemma availability_set_answered:
  assumes "availability_set P payload S = Some (r, S')"
  shows "r = json 200 (ok_body [])"
    and "\<exists>av. S' = S\<lparr>AVAILABILITY := av\<rparr> \<and> length (weekly av) = 7"
    and "\<forall>k\<in>set (Object_keys (submitted_blocks payload)). submitted_list P payload k \<noteq> None"
    and "blocks (AVAILABILITY S') =
       fold (store_list (\<lambda>k. normal_list (case submitted_list P payload k of None \<Rightarrow> [] | Some ss \<Rightarrow> ss)))
         (Object_keys (submitted_blocks payload)) []"
proof -
  from assms obtain wk bl where
    wk: "those (map (normalize_day P (object_or (getprop (js_nullish (getprop payload ''availability'') payload) ''weekly'') DEFAULT_weekly)) [0..<7]) = Some wk"
    and bl: "normalize_blocks P (submitted_blocks payload) (Object_keys (submitted_blocks payload)) [] = Some bl"
    and S': "S' = S\<lparr>AVAILABILITY := \<lparr>weekly = wk, blocks = bl\<rparr>\<rparr>" and r: "r = json 200 (ok_body [])"
    by (auto simp: availability_set_def normalizeAvailability_def submitted_blocks_def Let_def bind_eq_Some_conv
             split: option.splits)
  show "r = json 200 (ok_body [])" by (rule r)
  from those_length[OF wk] have "length (weekly \<lparr>weekly = wk, blocks = bl\<rparr>) = 7" by simp
  with S' show "\<exists>av. S' = S\<lparr>AVAILABILITY := av\<rparr> \<and> length (weekly av) = 7"
    by blast
  from bl show "\<forall>k\<in>set (Object_keys (submitted_blocks payload)). submitted_list P payload k \<noteq> None"
    unfolding normalize_blocks_fold submitted_list_def by (simp split: if_splits)
  from bl S' show "blocks (AVAILABILITY S') =
       fold (store_list (\<lambda>k. normal_list (case submitted_list P payload k of None \<Rightarrow> [] | Some ss \<Rightarrow> ss)))
         (Object_keys (submitted_blocks payload)) []"
    unfolding normalize_blocks_fold submitted_list_def by (simp split: if_splits)
qed

lemma submitted_list_not_key:
  "k \<notin> set (Object_keys (submitted_blocks payload)) \<Longrightarrow> submitted_list P payload k = Some []"
proof -
  assume "k \<notin> set (Object_keys (submitted_blocks payload))"
  then have "getprop (submitted_blocks payload) k = None"
    by (simp add: getprop_def Object_keys_def map_of_eq_None_iff)
  then show ?thesis by (simp add: submitted_list_def map_String_def)
qed

lemma submitted_list_answered:
  assumes "availability_set P payload S = Some (r, S')"
  shows "\<exists>ss. submitted_list P payload k = Some ss"
  using availability_set_answered(3)[OF assms] submitted_list_not_key[of k payload P]
  by (cases "k \<in> set (Object_keys (submitted_blocks payload))") auto

lemma map_of_stored_blocks:
  assumes "availability_set P payload S = Some (r, S')" and "submitted_list P payload k = Some ss"
  shows "map_of (blocks (AVAILABILITY S')) k =
     (if normal_list ss = [] \<or> k = ''__proto__'' then None else Some (normal_list ss))"
proof (cases "k \<in> set (Object_keys (submitted_blocks payload))")
  case True
  then show ?thesis
    using assms(2) by (simp add: availability_set_answered(4)[OF assms(1)] map_of_fold_store)
next
  case False
  then have "ss = []" using assms(2) by (simp add: submitted_list_not_key)
  with False show ?thesis
    by (simp add: availability_set_answered(4)[OF assms(1)] map_of_fold_store)
qed

lemma update_fresh: "k \<notin> fst ` set al \<Longrightarrow> AList.update k v al = al @ [(k, v)]"
  by (induction al) auto

lemma fold_store_skip: "\<forall>k\<in>set ks. g k = [] \<or> k = ''__proto__'' \<Longrightarrow> fold (store_list g) ks acc = acc"
  by (induction ks arbitrary: acc) (auto simp: store_list_def)

lemma fold_store_rebuild:
  assumes "distinct (map fst (acc @ ys))"
    and "\<forall>(k, v)\<in>set ys. g k = v \<and> v \<noteq> [] \<and> k \<noteq> ''__proto__''"
    and "\<forall>k\<in>set extra. g k = [] \<or> k = ''__proto__''"
  shows "fold (store_list g) (map fst ys @ extra) acc = acc @ ys"
  using assms(1,2)
proof (induction ys arbitrary: acc)
  case Nil
  then show ?case by (simp add: fold_store_skip assms(3))
next
  case (Cons y ys)
  obtain k v where y: "y = (k, v)" by (cases y)
  from Cons.prems y have g: "g k = v" "v \<noteq> []" "k \<noteq> ''__proto__''" by auto
  from Cons.prems y have fresh: "k \<notin> fst ` set acc" by auto
  have step: "store_list g k acc = acc @ [(k, v)]"
    using g fresh by (simp add: store_list_def update_fresh)
  have d: "distinct (map fst ((acc @ [(k, v)]) @ ys))"
    using Cons.prems(1) y by auto
  have "fold (store_list g) (map fst ys @ extra) (acc @ [(k, v)]) = (acc @ [(k, v)]) @ ys"
    using Cons.prems(2) by (intro Cons.IH[OF d]) auto
  then show ?case using y step by simp
qed

lemma entry_list_member:
  "distinct (map fst bs) \<Longrightarrow> (k, v) \<in> set bs \<Longrightarrow> entry_list bs k = v"
  by (simp add: entry_list_def)

lemma map_of_normalized_blocks:
  "map_of (normalized_blocks bs) k =
     (if normal_list (entry_list bs k) = [] \<or> k = ''__proto__'' then None else Some (normal_list (entry_list bs k)))"
proof (cases "k \<in> set (map fst bs)")
  case True
  then show ?thesis by (simp add: normalized_blocks_def map_of_fold_store)
next
  case False
  then have "map_of bs k = None" by (simp add: map_of_eq_None_iff)
  then have "normal_list (entry_list bs k) = []"
    by (simp add: entry_list_def)
  with False show ?thesis by (simp add: normalized_blocks_def map_of_fold_store)
qed

lemma normal_normalized_blocks: "normal_blocks (normalized_blocks bs)"
proof -
  have d: "distinct (map fst (normalized_blocks bs))"
    by (simp add: normalized_blocks_def distinct_fold_store)
  have "k \<noteq> ''__proto__'' \<and> v \<noteq> [] \<and> normal_list v = v" if "(k, v) \<in> set (normalized_blocks bs)" for k v
  proof -
    from d that have "map_of (normalized_blocks bs) k = Some v" by simp
    then show ?thesis
      by (auto simp: map_of_normalized_blocks normal_list_idem split: if_splits)
  qed
  with d show ?thesis unfolding normal_blocks_def by blast
qed

lemma normalized_blocks_id:
  assumes "normal_blocks C"
  shows "normalized_blocks C = C"
proof -
  have d: "distinct (map fst ([] @ C))" using assms by (simp add: normal_blocks_def)
  have g: "\<forall>(k, v)\<in>set C. normal_list (entry_list C k) = v \<and> v \<noteq> [] \<and> k \<noteq> ''__proto__''"
    using assms by (auto simp: normal_blocks_def entry_list_member)
  have "fold (store_list (\<lambda>k. normal_list (entry_list C k))) (map fst C @ []) [] = [] @ C"
    using d g by (intro fold_store_rebuild) auto
  then show ?thesis by (simp add: normalized_blocks_def)
qed

lemma getprop_blocks_json:
  "getprop (blocks_json bs) k = map_option (\<lambda>v. JArr (map JStr v)) (map_of bs k)"
  by (induction bs) (auto simp: getprop_def blocks_json_def)

lemma those_ToString_JStr: "those (map (ToString P \<circ> JStr) v) = Some v"
  by (induction v) auto

lemma normalize_day_answers:
  assumes "getprop w (index_key dow) = None \<or> (\<exists>d. getprop w (index_key dow) = Some (day_json d))"
  shows "normalize_day P w dow \<noteq> None"
proof -
  let ?conf = "js_nullish (getprop w (index_key dow)) (js_nullish (getprop w (index_key dow)) (DEFAULT_day dow))"
  have "?conf = DEFAULT_day dow \<or> (\<exists>d. ?conf = day_json d)"
    using assms by (auto simp: js_nullish_def day_json_def)
  then have "(\<exists>s. ToNumber P (js_nullish (getprop ?conf ''start'') (JNum (Fin 8))) = Some s)
           \<and> (\<exists>e. ToNumber P (js_nullish (getprop ?conf ''end'') (JNum (Fin 18))) = Some e)"
    by (auto simp: DEFAULT_day_def day_json_def num_json_def getprop_def js_nullish_def)
  then show ?thesis
    unfolding normalize_day_def Let_def by (auto simp: bind_eq_Some_conv)
qed

lemma getprop_weekly_json:
  "getprop (weekly_json ds) k = None \<or> (\<exists>d. getprop (weekly_json ds) k = Some (day_json d))"
proof -
  have "map_of (map (\<lambda>dow. (f dow, day_json (g dow))) xs) k = None
      \<or> (\<exists>d. map_of (map (\<lambda>dow. (f dow, day_json (g dow))) xs) k = Some (day_json d))"
    for f :: "nat \<Rightarrow> string" and g :: "nat \<Rightarrow> day_conf" and xs
    by (induction xs) auto
  then show ?thesis by (simp add: getprop_def weekly_json_def)
qed

lemma block_slot_answered:
  "availability_set P (blockSlotServer (loadServerAvailability S) d t True) S = Some (json 200 (ok_body []), block_slot P d t S)"
  "blocks (AVAILABILITY (block_slot P d t S)) = normalized_blocks (blocks_posted (blocks (AVAILABILITY S)) d t)"
proof -
  let ?b = "blocks_posted (blocks (AVAILABILITY S)) d t"
  let ?payload = "blockSlotServer (loadServerAvailability S) d t True"
  let ?w = "weekly_json (weekly (AVAILABILITY S))"
  have p: "?payload = JObj [(''availability'', JObj [(''weekly'', ?w), (''blocks'', blocks_json ?b)])]"
  proof -
    have arr: "(case map_of (blocks (AVAILABILITY S)) d of Some xs \<Rightarrow> xs | None \<Rightarrow> []) = entry_list (blocks (AVAILABILITY S)) d"
      by (simp add: entry_list_def)
    show ?thesis
      unfolding blockSlotServer_def loadServerAvailability_def Let_def
      by (simp only: serverAvailability.simps arr blocks_posted_def simp_thms if_True if_False split: if_splits) simp
  qed
  have sb: "submitted_blocks ?payload = blocks_json ?b"
    unfolding p by (simp add: submitted_blocks_def getprop_def js_nullish_def object_or_def blocks_json_def)
  have keys: "Object_keys (blocks_json ?b) = map fst ?b"
    by (simp add: Object_keys_def blocks_json_def split_def o_def)
  have sl: "map_String P (blocks_json ?b) k = Some (entry_list ?b k)" for k
    unfolding map_String_def getprop_blocks_json
    by (simp add: entry_list_def those_ToString_JStr split: option.splits)
  have bl: "normalize_blocks P (blocks_json ?b) (map fst ?b) [] = Some (normalized_blocks ?b)"
    unfolding normalize_blocks_fold normalized_blocks_def by (simp add: sl)
  have w: "object_or (getprop (js_nullish (getprop ?payload ''availability'') ?payload) ''weekly'') DEFAULT_weekly = ?w"
    unfolding p by (simp add: getprop_def js_nullish_def object_or_def weekly_json_def)
  have "\<forall>dow\<in>set [0..<7]. normalize_day P ?w dow \<noteq> None"
    using getprop_weekly_json by (intro ballI normalize_day_answers)
  from those_map_Some[OF this] obtain wk where wk: "those (map (normalize_day P ?w) [0..<7]) = Some wk"
    by blast
  have a: "availability_set P ?payload S =
          Some (json 200 (ok_body []), S\<lparr>AVAILABILITY := \<lparr>weekly = wk, blocks = normalized_blocks ?b\<rparr>\<rparr>)"
    using wk bl sb keys w
    by (simp add: availability_set_def normalizeAvailability_def submitted_blocks_def)
  then show "availability_set P ?payload S = Some (json 200 (ok_body []), block_slot P d t S)"
    by (simp add: block_slot_def)
  from a show "blocks (AVAILABILITY (block_slot P d t S)) = normalized_blocks ?b"
    by (simp add: block_slot_def)
qed

lemma normal_list_props:
  assumes "normal_list v = v"
  shows "sorted v" "distinct v" "[] \<notin> set v"
proof -
  show "sorted v" using sorted_normal_list[of v] assms by simp
  show "distinct v" using distinct_normal_list[of v] assms by simp
  show "[] \<notin> set v" using set_normal_list[of v] assms by auto
qed

lemma normal_list_eq:
  assumes "normal_list v = v" and "set xs - {[]} = set v"
  shows "normal_list xs = v"
proof -
  have "set (normal_list xs) = set v" using assms(2) by (simp add: set_normal_list)
  then show ?thesis
    using normal_list_props[OF assms(1)]
    by (intro sorted_distinct_set_unique) (auto simp: sorted_normal_list distinct_normal_list)
qed

lemma entry_list_update:
  "entry_list (AList.update d v bs) k = (if k = d then v else entry_list bs k)"
  by (simp add: entry_list_def update_conv')

lemma entry_list_normal:
  assumes "normal_blocks C"
  shows "normal_list (entry_list C k) = entry_list C k"
proof (cases "map_of C k")
  case None
  then show ?thesis by (simp add: entry_list_def)
next
  case (Some v)
  then have "(k, v) \<in> set C" by (rule map_of_SomeD)
  with assms have "normal_list v = v" by (auto simp: normal_blocks_def)
  with Some show ?thesis by (simp add: entry_list_def)
qed

text \<open>
  Posting normal blocks with one list replaced stores the blocks unchanged when the new
  list normalizes to the old one, or when its key is one that the server does not store.
\<close>

lemma block_update_again:
  assumes C: "normal_blocks C"
    and v: "normal_list v = entry_list C d \<or> d = ''__proto__''"
  shows "normalized_blocks (AList.update d v C) = C"
proof -
  let ?U = "AList.update d v C"
  let ?g = "\<lambda>k. normal_list (entry_list ?U k)"
  let ?extra = "if d \<in> set (map fst C) then [] else [d]"
  have keys: "map fst ?U = map fst C @ ?extra"
    by (simp add: update_keys)
  have d: "distinct (map fst ([] @ C))" using C by (simp add: normal_blocks_def)
  have g: "\<forall>(k, v)\<in>set C. ?g k = v \<and> v \<noteq> [] \<and> k \<noteq> ''__proto__''"
  proof (clarify, intro conjI)
    fix k w assume kv: "(k, w) \<in> set C"
    have e: "entry_list C k = w" using C kv by (simp add: normal_blocks_def entry_list_member)
    show np: "k \<noteq> ''__proto__''" using C kv by (auto simp: normal_blocks_def)
    show "?g k = w"
    proof (cases "k = d")
      case True
      with v e np show ?thesis by (simp add: entry_list_update)
    next
      case False
      then show ?thesis using entry_list_normal[OF C, of k] e by (simp add: entry_list_update)
    qed
    show "w \<noteq> []" using C kv by (auto simp: normal_blocks_def)
  qed
  have x: "\<forall>k\<in>set ?extra. ?g k = [] \<or> k = ''__proto__''"
  proof (cases "d \<in> set (map fst C)")
    case True
    then show ?thesis by simp
  next
    case False
    then have "map_of C d = None" by (simp add: map_of_eq_None_iff)
    then have "entry_list C d = []" by (simp add: entry_list_def)
    with v False show ?thesis by (auto simp: entry_list_update)
  qed
  have "fold (store_list ?g) (map fst C @ ?extra) [] = [] @ C"
    using d g x by (rule fold_store_rebuild)
  then show ?thesis unfolding normalized_blocks_def keys by simp
qed

lemma block_again:
  assumes C: "C = normalized_blocks (blocks_posted B d t)"
  shows "normalized_blocks (blocks_posted C d t) = C"
proof -
  have nC: "normal_blocks C" unfolding C by (rule normal_normalized_blocks)
  show ?thesis
  proof (cases "t \<in> set (entry_list C d)")
    case True
    then have "blocks_posted C d t = C" by (simp add: blocks_posted_def)
    then show ?thesis using normalized_blocks_id[OF nC] by simp
  next
    case False
    then have bp: "blocks_posted C d t = AList.update d (sort (entry_list C d @ [t])) C"
      by (simp add: blocks_posted_def)
    have "normal_list (sort (entry_list C d @ [t])) = entry_list C d \<or> d = ''__proto__''"
    proof (cases "t = [] \<or> d = ''__proto__''")
      case True
      show ?thesis
      proof (cases "d = ''__proto__''")
        case True
        then show ?thesis by simp
      next
        case False
        with True have t: "t = []" by simp
        have "set (sort (entry_list C d @ [t])) - {[]} = set (entry_list C d)"
          using normal_list_props(3)[OF entry_list_normal[OF nC, of d]] t by auto
        then have "normal_list (sort (entry_list C d @ [t])) = entry_list C d"
          by (rule normal_list_eq[OF entry_list_normal[OF nC]])
        then show ?thesis by simp
      qed
    next
      case F: False
      let ?B' = "blocks_posted B d t"
      have "t \<in> set (entry_list ?B' d)"
        by (simp add: blocks_posted_def entry_list_update)
      with F have t: "t \<in> set (normal_list (entry_list ?B' d))"
        by (simp add: set_normal_list)
      then have "normal_list (entry_list ?B' d) \<noteq> []" by auto
      then have "map_of C d = Some (normal_list (entry_list ?B' d))"
        unfolding C using F by (simp add: map_of_normalized_blocks)
      with t have "t \<in> set (entry_list C d)" by (simp add: entry_list_def)
      with False show ?thesis by simp
    qed
    then show ?thesis unfolding bp using nC by (intro block_update_again)
  qed
qed

lemmas avail_defs =
  availability_set_def normalizeAvailability_def normalize_day_def normalize_block_def map_String_def object_or_def
  js_nullish_def truthy_def getprop_def Object_keys_def DEFAULT_weekly_def DEFAULT_day_def Math_min_def Math_max_def
  new_Set_def Set_add_def Let_def

lemma index_key_digits: "index_key 0 = ''0''" "index_key 1 = ''1''" "index_key 2 = ''2''" "index_key 3 = ''3''"
  "index_key 4 = ''4''" "index_key 5 = ''5''" "index_key 6 = ''6''" "index_key (Suc 0) = ''1''"
  by code_simp+

lemma upt_7: "[0..<7] = [0, 1, 2, 3, 4, 5, 6]"
  by (simp add: upt_rec)

lemma clamp_cases:
  assumes "x \<noteq> NaN" and "lo \<le> hi"
  shows "\<exists>r. Math_max (Fin lo) (Math_min (Fin hi) x) = Fin r \<and> lo \<le> r \<and> r \<le> hi"
proof (cases x)
  case NaN
  with assms show ?thesis by simp
next
  case NegInf
  with assms show ?thesis by (simp add: Math_max_def Math_min_def)
next
  case (Fin a)
  with assms show ?thesis by (cases "hi \<le> a"; cases "lo \<le> a") (auto simp: Math_max_def Math_min_def)
next
  case PosInf
  with assms show ?thesis by (simp add: Math_max_def Math_min_def)
qed

lemma normalize_day_well_formed:
  assumes "ToNumber P (js_nullish (getprop (js_nullish (getprop w (index_key dow)) (DEFAULT_day dow)) ''start'') (JNum (Fin 8))) = Some x"
    and "ToNumber P (js_nullish (getprop (js_nullish (getprop w (index_key dow)) (DEFAULT_day dow)) ''end'') (JNum (Fin 18))) = Some y"
    and "x \<noteq> NaN" and "y \<noteq> NaN"
  shows "\<exists>c. normalize_day P w dow = Some c \<and> well_formed_day c"
proof -
  let ?conf = "js_nullish (getprop w (index_key dow)) (DEFAULT_day dow)"
  have conf: "js_nullish (getprop w (index_key dow)) (js_nullish (getprop w (index_key dow)) (DEFAULT_day dow)) = ?conf"
    by (simp add: js_nullish_def split: option.splits jvalue.splits)
  obtain s where s: "Math_max (Fin 0) (Math_min (Fin 23) x) = Fin s" "0 \<le> s \<and> s \<le> 23"
    using clamp_cases[OF assms(3), of 0 23] by auto
  obtain e where e: "Math_max (Fin 1) (Math_min (Fin 24) y) = Fin e" "1 \<le> e \<and> e \<le> 24"
    using clamp_cases[OF assms(4), of 1 24] by auto
  show ?thesis
    unfolding normalize_day_def conf Let_def
    using s e assms(1,2) by (auto simp: well_formed_day_def Math_max_def)
qed

lemma weekly_seven: "normalizeAvailability P input = Some av \<Longrightarrow> length (weekly av) = 7"
  by (auto simp: normalizeAvailability_def Let_def bind_eq_Some_conv dest: those_length)

section \<open>Stored blocks\<close>

text \<open>
  Claim C5, as stated, fails: the server stores whatever non-empty strings it is sent, in
  HH:MM format or not. And a POST whose list holds an element that \<open>String\<close> cannot
  convert gets no answer and stores nothing.
\<close>

theorem stored_blocks_not_HHMM:
  "map_option (\<lambda>(r, S'). map_of (blocks (AVAILABILITY S')) ''2024-01-01'')
     (availability_set sample_platform
        (JObj [(''availability'', JObj [(''blocks'', JObj [(''2024-01-01'', JArr [JStr ''8am''])])])]) empty_server)
    = Some (Some [''8am''])
 \<and> \<not> is_HHMM ''8am''
 \<and> availability_set sample_platform
      (JObj [(''availability'', JObj [(''blocks'', JObj [(''2024-01-01'', JArr [unconvertible])])])]) empty_server
    = None"
  by (simp add: avail_defs upt_7 index_key_digits sample_defs)

text \<open>
  Claim C5, amended. After every POST /api/availability/set that the server answers (the
  answer is 200), each key of the stored blocks occurs once and maps to a list that is not
  empty, has no duplicates, is sorted (by code unit) and holds non-empty strings: the
  strings submitted for the key, each converted by \<open>String\<close>, without the empty
  string. No format of the strings or of the key is checked. A key whose submitted list
  normalizes to the empty list is absent from the stored blocks, and so is the key
  \<open>__proto__\<close>; every other submitted key is present.
\<close>

theorem stored_blocks_normal:
  assumes "availability_set P payload S = Some (r, S')"
  shows "(\<exists>ss. submitted_list P payload k = Some ss
          \<and> (map_of (blocks (AVAILABILITY S')) k = Some v \<longrightarrow>
               v \<noteq> [] \<and> distinct v \<and> sorted v \<and> (\<forall>s\<in>set v. s \<noteq> []) \<and> set v = set ss - {[]} \<and> k \<noteq> ''__proto__'')
          \<and> (set ss \<subseteq> {[]} \<longrightarrow> map_of (blocks (AVAILABILITY S')) k = None)
          \<and> (\<not> set ss \<subseteq> {[]} \<and> k \<noteq> ''__proto__'' \<longrightarrow> map_of (blocks (AVAILABILITY S')) k \<noteq> None))
       \<and> distinct (map fst (blocks (AVAILABILITY S')))
       \<and> code r = 200"
proof -
  from submitted_list_answered[OF assms] obtain ss where ss: "submitted_list P payload k = Some ss"
    by blast
  note m = map_of_stored_blocks[OF assms ss]
  have e: "normal_list ss = [] \<longleftrightarrow> set ss \<subseteq> {[]}"
  proof -
    have "normal_list ss = [] \<longleftrightarrow> set (normal_list ss) = {}" by simp
    also have "\<dots> \<longleftrightarrow> set ss \<subseteq> {[]}" unfolding set_normal_list by blast
    finally show ?thesis .
  qed
  have 1: "map_of (blocks (AVAILABILITY S')) k = Some v \<longrightarrow>
      v \<noteq> [] \<and> distinct v \<and> sorted v \<and> (\<forall>s\<in>set v. s \<noteq> []) \<and> set v = set ss - {[]} \<and> k \<noteq> ''__proto__''"
    unfolding m by (auto simp: distinct_normal_list sorted_normal_list set_normal_list split: if_splits)
  have 2: "set ss \<subseteq> {[]} \<longrightarrow> map_of (blocks (AVAILABILITY S')) k = None"
    unfolding m using e by simp
  have 3: "\<not> set ss \<subseteq> {[]} \<and> k \<noteq> ''__proto__'' \<longrightarrow> map_of (blocks (AVAILABILITY S')) k \<noteq> None"
    unfolding m using e by simp
  have 4: "distinct (map fst (blocks (AVAILABILITY S')))"
    by (simp add: availability_set_answered(4)[OF assms] distinct_fold_store)
  have 5: "code r = 200"
    by (simp add: availability_set_answered(1)[OF assms] json_def)
  from ss 1 2 3 4 5 show ?thesis by blast
qed

text \<open>
  Claim C5, amended, at an input: one date with a duplicate and an empty string, one date
  whose list normalizes to empty.
\<close>

theorem stored_blocks_normal_witness:
  "availability_set sample_platform
      (JObj [(''blocks'', JObj [(''2024-01-01'', JArr [JStr ''10:00'', JStr [], JStr ''08:00'', JStr ''10:00'']),
                                (''2024-01-02'', JArr [JStr []])])]) empty_server
    = Some (json 200 (ok_body []),
            empty_server\<lparr>AVAILABILITY := \<lparr>weekly = weekly DEFAULT_AVAILABILITY,
                                           blocks = [(''2024-01-01'', [''08:00'', ''10:00''])]\<rparr>\<rparr>)
 \<and> submitted_list sample_platform
      (JObj [(''blocks'', JObj [(''2024-01-01'', JArr [JStr ''10:00'', JStr [], JStr ''08:00'', JStr ''10:00'']),
                                (''2024-01-02'', JArr [JStr []])])]) ''2024-01-01''
    = Some [''10:00'', [], ''08:00'', ''10:00'']
 \<and> distinct [''08:00'', ''10:00''] \<and> sorted [''08:00'', ''10:00'']
 \<and> set [''08:00'', ''10:00''] = set [''10:00'', [], ''08:00'', ''10:00''] - {[]}"
proof -
  let ?p = "JObj [(''blocks'', JObj [(''2024-01-01'', JArr [JStr ''10:00'', JStr [], JStr ''08:00'', JStr ''10:00'']),
                                (''2024-01-02'', JArr [JStr []])])]"
  let ?S = "empty_server\<lparr>AVAILABILITY := \<lparr>weekly = weekly DEFAULT_AVAILABILITY,
                                           blocks = [(''2024-01-01'', [''08:00'', ''10:00''])]\<rparr>\<rparr>"
  have h: "availability_set sample_platform ?p empty_server = Some (json 200 (ok_body []), ?S)"
    by (simp add: avail_defs upt_7 index_key_digits sample_defs)
  have s: "submitted_list sample_platform ?p ''2024-01-01'' = Some [''10:00'', [], ''08:00'', ''10:00'']"
    by (simp add: submitted_list_def submitted_blocks_def avail_defs)
  have m: "map_of (blocks (AVAILABILITY ?S)) ''2024-01-01'' = Some [''08:00'', ''10:00'']"
    by simp
  from stored_blocks_normal[OF h, of "''2024-01-01''" "[''08:00'', ''10:00'']"] s m
  have "distinct [''08:00'', ''10:00''] \<and> sorted [''08:00'', ''10:00'']
      \<and> set [''08:00'', ''10:00''] = set [''10:00'', [], ''08:00'', ''10:00''] - {[]}"
    by auto
  with h s show ?thesis by blast
qed

section \<open>Blocking a slot twice\<close>

text \<open>
  Claim C6. For every state of the server, every date and every time string, blocking the
  slot a second time (the client reads the availability, \<open>blockSlotServer\<close> posts it with
  the slot in the blocks of the date, the server normalizes and stores it) leaves the stored
  blocks, keys and lists in their order, equal to the blocks stored after blocking it once.
  The server answers both posts with 200.
\<close>

theorem block_twice_idempotent:
  "blocks (AVAILABILITY (block_slot P d t (block_slot P d t S))) = blocks (AVAILABILITY (block_slot P d t S))
 \<and> (\<exists>r. availability_set P (blockSlotServer (loadServerAvailability S) d t True) S
            = Some (r, block_slot P d t S) \<and> code r = 200)
 \<and> (\<exists>r. availability_set P (blockSlotServer (loadServerAvailability (block_slot P d t S)) d t True) (block_slot P d t S)
            = Some (r, block_slot P d t (block_slot P d t S)) \<and> code r = 200)"
proof -
  have "blocks (AVAILABILITY (block_slot P d t (block_slot P d t S))) = blocks (AVAILABILITY (block_slot P d t S))"
    unfolding block_slot_answered(2)[of P d t "block_slot P d t S"] block_slot_answered(2)[of P d t S]
    by (rule block_again) (rule refl)
  moreover have "code (json 200 (ok_body [])) = 200" by (simp add: json_def)
  ultimately show ?thesis
    using block_slot_answered(1)[of P S d t] block_slot_answered(1)[of P "block_slot P d t S" d t]
    by blast
qed

text \<open>
  Claim C6, at an input: 10:00 on 2024-01-01, blocked twice from the default availability.
\<close>

theorem block_twice_idempotent_witness:
  "blocks (AVAILABILITY (block_slot sample_platform ''2024-01-01'' ''10:00''
      (block_slot sample_platform ''2024-01-01'' ''10:00'' empty_server)))
    = [(''2024-01-01'', [''10:00''])]"
proof -
  have "blocks (AVAILABILITY (block_slot sample_platform ''2024-01-01'' ''10:00'' empty_server)) = [(''2024-01-01'', [''10:00''])]"
    unfolding block_slot_answered(2)
    by (simp add: normalized_blocks_def blocks_posted_def entry_list_def store_list_def normal_list_def
          new_Set_def Set_add_def sample_defs)
  with block_twice_idempotent[of sample_platform "''2024-01-01''" "''10:00''" empty_server] show ?thesis
    by simp
qed

section \<open>The weekly template\<close>

text \<open>
  Claim C9 holds for seven entries with a boolean \<open>enabled\<close>, and for the bounds
  whenever \<open>start\<close> and \<open>end\<close> convert to numbers (\<open>weekly_seven\<close>,
  \<open>normalize_day_well_formed\<close>). The code misses the case it is meant to cover: a
  \<open>start\<close> that is not numeric converts to \<open>NaN\<close>, which \<open>Math.min\<close> and
  \<open>Math.max\<close> pass on, so the stored entry of the day has \<open>start\<close> and \<open>end\<close>
  equal to \<open>NaN\<close> and none of the bounds holds.
\<close>

theorem weekly_start_NaN:
  "map_option (\<lambda>(r, S'). weekly (AVAILABILITY S') ! 1)
     (availability_set sample_platform
        (JObj [(''availability'', JObj [(''weekly'', JObj [(''1'', JObj [(''enabled'', JBool True), (''start'', JStr ''abc''), (''end'', JNum (Fin 18))])])])])
        empty_server)
    = Some \<lparr>enabled = True, start = NaN, end_hour = NaN\<rparr>
 \<and> \<not> well_formed_day \<lparr>enabled = True, start = NaN, end_hour = NaN\<rparr>"
  by (simp add: avail_defs upt_7 index_key_digits sample_defs well_formed_day_def)

section \<open>Lemmas about the admin routes\<close>


















section \<open>No authentication on the server\<close>



end
